theory Spec2Isabelle
  imports Complex_Main "HOL-Library.Word" "HOL-Library.List_Lexorder" "HOL-Library.Char_ord"
begin

section \<open>Values: float64 as pandas and numpy compute with it\<close>

text \<open>
  The notebooks compute with pandas columns of dtype float64, the binary64 format of
  IEEE 754. A value is a finite number \<open>m * 2^e\<close> with \<open>\<bar>m\<bar> < 2^53\<close> and
  \<open>-1074 \<le> e \<le> 971\<close>, one of the two zeros, one of the two infinities, or NaN. \<open>Fin 0\<close>
  is the positive zero and \<open>NegZero\<close> the negative one.
\<close>

datatype f64 = Fin real | NegZero | PInf | NInf | NaN

text \<open>
  Rounding to nearest, ties to even. \<open>quantum x\<close> is the exponent of the last bit that
  a value of the magnitude of \<open>x\<close> keeps: 53 bits in the normal range, and never below
  \<open>2^-1074\<close>, which is the spacing of the subnormal numbers. A result whose rounded magnitude
  reaches \<open>2^1024\<close> overflows to the infinity of its sign; a negative result that rounds to
  zero is the negative zero.
\<close>

definition ilog2 :: "real \<Rightarrow> int" where
  "ilog2 x = \<lfloor>log 2 \<bar>x\<bar>\<rfloor>"

definition rne :: "real \<Rightarrow> int" where
  "rne m = (let f = \<lfloor>m\<rfloor>; r = m - of_int f in
     if r < 1/2 then f else if 1/2 < r then f + 1 else if even f then f else f + 1)"

definition quantum :: "real \<Rightarrow> int" where
  "quantum x = max (ilog2 x - 52) (- 1074)"

definition round_real :: "real \<Rightarrow> real" where
  "round_real x =
     (if x = 0 then 0 else of_int (rne (x / 2 powi quantum x)) * 2 powi quantum x)"

definition round_f64 :: "real \<Rightarrow> f64" where
  "round_f64 x =
     (let r = round_real x in
      if 2 ^ 1024 \<le> \<bar>r\<bar> then (if 0 < x then PInf else NInf)
      else if r = 0 \<and> x < 0 then NegZero
      else Fin r)"

text \<open>The real numbers that are float64 values.\<close>

definition is_f64 :: "real \<Rightarrow> bool" where
  "is_f64 x = (round_f64 x = Fin x)"

text \<open>The parts of a value that the special cases of the operations look at.\<close>

fun is_nan :: "f64 \<Rightarrow> bool" where
  "is_nan NaN = True"
| "is_nan _ = False"

fun is_inf :: "f64 \<Rightarrow> bool" where
  "is_inf PInf = True"
| "is_inf NInf = True"
| "is_inf _ = False"

fun is_zero :: "f64 \<Rightarrow> bool" where
  "is_zero (Fin x) = (x = 0)"
| "is_zero NegZero = True"
| "is_zero _ = False"

fun is_finite :: "f64 \<Rightarrow> bool" where
  "is_finite (Fin x) = True"
| "is_finite NegZero = True"
| "is_finite _ = False"

fun sign_bit :: "f64 \<Rightarrow> bool" where
  "sign_bit (Fin x) = (x < 0)"
| "sign_bit NegZero = True"
| "sign_bit NInf = True"
| "sign_bit _ = False"

fun valof :: "f64 \<Rightarrow> real" where
  "valof (Fin x) = x"
| "valof _ = 0"

definition zero_of_sign :: "bool \<Rightarrow> f64" where
  "zero_of_sign negative = (if negative then NegZero else Fin 0)"

definition inf_of_sign :: "bool \<Rightarrow> f64" where
  "inf_of_sign negative = (if negative then NInf else PInf)"

text \<open>
  Multiplication: NaN with a NaN operand and for zero times infinity; otherwise the sign is
  the exclusive or of the signs, an infinite operand gives an infinity, a zero operand a
  zero, and two finite nonzero operands give the rounded product.
\<close>

definition fmul :: "f64 \<Rightarrow> f64 \<Rightarrow> f64" where
  "fmul a b =
     (if is_nan a \<or> is_nan b then NaN
      else if is_inf a \<or> is_inf b
      then (if is_zero a \<or> is_zero b then NaN else inf_of_sign (sign_bit a \<noteq> sign_bit b))
      else if is_zero a \<or> is_zero b then zero_of_sign (sign_bit a \<noteq> sign_bit b)
      else round_f64 (valof a * valof b))"

text \<open>
  Addition: opposite infinities give NaN; an exact sum of zero is the positive zero unless
  both operands are negative (then both are the negative zero).
\<close>

definition fadd :: "f64 \<Rightarrow> f64 \<Rightarrow> f64" where
  "fadd a b =
     (if is_nan a \<or> is_nan b then NaN
      else if is_inf a then (if is_inf b \<and> sign_bit a \<noteq> sign_bit b then NaN else a)
      else if is_inf b then b
      else if valof a + valof b = 0 then zero_of_sign (sign_bit a \<and> sign_bit b)
      else round_f64 (valof a + valof b))"

text \<open>
  Float division does not raise in numpy: a nonzero value divided by a zero is an infinity
  (of the exclusive or of the two signs, so dividing by the negative zero turns the sign),
  and \<open>0 / 0\<close> and \<open>inf / inf\<close> are NaN.
\<close>

definition fdiv :: "f64 \<Rightarrow> f64 \<Rightarrow> f64" where
  "fdiv a b =
     (if is_nan a \<or> is_nan b then NaN
      else if is_inf a then (if is_inf b then NaN else inf_of_sign (sign_bit a \<noteq> sign_bit b))
      else if is_inf b then zero_of_sign (sign_bit a \<noteq> sign_bit b)
      else if is_zero b
      then (if is_zero a then NaN else inf_of_sign (sign_bit a \<noteq> sign_bit b))
      else if is_zero a then zero_of_sign (sign_bit a \<noteq> sign_bit b)
      else round_f64 (valof a / valof b))"

fun fneg :: "f64 \<Rightarrow> f64" where
  "fneg (Fin x) = (if x = 0 then NegZero else Fin (- x))"
| "fneg NegZero = Fin 0"
| "fneg PInf = NInf"
| "fneg NInf = PInf"
| "fneg NaN = NaN"

text \<open>\<open>np.sqrt\<close> is the correctly rounded IEEE square root; the root of \<open>-0.0\<close> is \<open>-0.0\<close>.\<close>

fun fsqrt :: "f64 \<Rightarrow> f64" where
  "fsqrt (Fin x) = (if x < 0 then NaN else round_f64 (sqrt x))"
| "fsqrt NegZero = NegZero"
| "fsqrt PInf = PInf"
| "fsqrt NInf = NaN"
| "fsqrt NaN = NaN"

text \<open>
  Comparison: NaN is unequal to everything, itself included, and the two zeros are equal.
\<close>

definition feq :: "f64 \<Rightarrow> f64 \<Rightarrow> bool" where
  "feq a b = (\<not> is_nan a \<and> \<not> is_nan b \<and> (a = b \<or> (is_zero a \<and> is_zero b)))"

section \<open>Cells, columns, frames and files\<close>

text \<open>
  A DataFrame is an ordered list of named columns of equal length; a column is a list of
  cells. The cells are those of the dtypes int64 (a 64-bit two's complement word), float64,
  object holding strings, and bool; a column of dtype uint64, which \<open>read_csv\<close> makes of a
  column with a value of \<open>2^63\<close> or more, has no cells here. An int64 cell converts to
  float64 by rounding. \<open>read_csv\<close> and \<open>to_csv\<close> are modelled on the parsed content: a file
  holds a frame.
\<close>

type_synonym int64 = "64 word"

datatype cell = I int64 | F f64 | S string | B bool

type_synonym column = "cell list"
type_synonym frame = "(string \<times> column) list"
type_synonym fs = "string \<Rightarrow> frame option"

datatype error =
    FileNotFoundError string
  | KeyError string
  | ValueError string
  | TypeError
  | AssertionError string
  | Unmodelled

definition bind_err :: "error + 'a \<Rightarrow> ('a \<Rightarrow> error + 'b) \<Rightarrow> error + 'b" where
  "bind_err m f = (case m of Inl e \<Rightarrow> Inl e | Inr v \<Rightarrow> f v)"

fun map_err :: "('a \<Rightarrow> error + 'b) \<Rightarrow> 'a list \<Rightarrow> error + 'b list" where
  "map_err f [] = Inr []"
| "map_err f (x # xs) =
     (case f x of Inl e \<Rightarrow> Inl e
      | Inr y \<Rightarrow> (case map_err f xs of Inl e \<Rightarrow> Inl e | Inr ys \<Rightarrow> Inr (y # ys)))"

definition read_csv :: "fs \<Rightarrow> string \<Rightarrow> error + frame" where
  "read_csv files path = (case files path of None \<Rightarrow> Inl (FileNotFoundError path) | Some df \<Rightarrow> Inr df)"

definition to_csv :: "fs \<Rightarrow> string \<Rightarrow> frame \<Rightarrow> fs" where
  "to_csv files path df = files(path \<mapsto> df)"

definition get_col :: "frame \<Rightarrow> string \<Rightarrow> error + column" where
  "get_col df name = (case map_of df name of None \<Rightarrow> Inl (KeyError name) | Some c \<Rightarrow> Inr c)"

definition columns :: "frame \<Rightarrow> string list" where
  "columns df = map fst df"

definition nrows :: "frame \<Rightarrow> nat" where
  "nrows df = (case df of [] \<Rightarrow> 0 | c # _ \<Rightarrow> length (snd c))"

text \<open>
  What pandas guarantees of every DataFrame read from a CSV file: the column names differ
  and the columns have one length.
\<close>

definition wf_frame :: "frame \<Rightarrow> bool" where
  "wf_frame df = (distinct (columns df) \<and> list_all (\<lambda>c. length (snd c) = nrows df) df)"

text \<open>
  Numeric cells as float64: int64 converts by rounding, a string raises \<open>TypeError\<close>.
  Arithmetic on a bool cell is not modelled.
\<close>

fun to_f64 :: "cell \<Rightarrow> error + f64" where
  "to_f64 (F x) = Inr x"
| "to_f64 (I i) = Inr (round_f64 (of_int (sint i)))"
| "to_f64 (S s) = Inl TypeError"
| "to_f64 (B b) = Inl Unmodelled"

text \<open>
  \<open>==\<close> on two cells. Numbers compare by value (an int against a float as floats, a bool as 0
  or 1); a string equals only the same string.
\<close>

fun cell_eq :: "cell \<Rightarrow> cell \<Rightarrow> bool" where
  "cell_eq (I a) (I b) = (a = b)"
| "cell_eq (S a) (S b) = (a = b)"
| "cell_eq (B a) (B b) = (a = b)"
| "cell_eq (B a) (I b) = ((if a then 1 else 0) = b)"
| "cell_eq (I a) (B b) = (a = (if b then 1 else 0))"
| "cell_eq (S a) b = False"
| "cell_eq a (S b) = False"
| "cell_eq (F x) (F y) = feq x y"
| "cell_eq (F x) (I b) = feq x (round_f64 (of_int (sint b)))"
| "cell_eq (I a) (F y) = feq (round_f64 (of_int (sint a))) y"
| "cell_eq (F x) (B b) = feq x (Fin (if b then 1 else 0))"
| "cell_eq (B a) (F y) = feq (Fin (if a then 1 else 0)) y"

text \<open>
  \<open>s1 == s2\<close> on two Series read from CSV files (both carry the default index
  \<open>0 .. n-1\<close>): pandas compares only identically labelled Series, so two columns of
  different length raise \<open>ValueError\<close>; otherwise the result is the column of row-wise
  comparisons.
\<close>

definition series_eq :: "column \<Rightarrow> column \<Rightarrow> error + bool list" where
  "series_eq xs ys =
     (if length xs \<noteq> length ys
      then Inl (ValueError ''Can only compare identically-labeled Series objects'')
      else Inr (map (\<lambda>(x, y). cell_eq x y) (zip xs ys)))"

text \<open>\<open>w * s\<close> for a float literal \<open>w\<close> and a Series \<open>s\<close>: row-wise, in float64.\<close>

definition scalar_mul :: "f64 \<Rightarrow> column \<Rightarrow> error + f64 list" where
  "scalar_mul w xs = map_err (\<lambda>c. bind_err (to_f64 c) (\<lambda>x. Inr (fmul w x))) xs"

text \<open>
  \<open>s1 + s2\<close> on two float Series with the default index: pandas aligns on the index, so
  row \<open>i\<close> of the result is the sum of the two rows \<open>i\<close>, and a row that only the longer
  operand has is NaN.
\<close>

definition series_add :: "f64 list \<Rightarrow> f64 list \<Rightarrow> f64 list" where
  "series_add xs ys =
     map (\<lambda>i. if i < length xs \<and> i < length ys then fadd (xs ! i) (ys ! i) else NaN)
       [0 ..< max (length xs) (length ys)]"

section \<open>blended_xgb70_lgb30: the weighted blend of two prediction files\<close>

definition xgb_file :: string where
  "xgb_file = ''datasets/submissions/submission_xgb_fe_v2_FIXED.csv''"

definition lgb_file :: string where
  "lgb_file = ''datasets/submissions/submission_lgbm_optuna_may21_FIXED.csv''"

definition output_path :: string where
  "output_path = ''datasets/submissions/submission_blended_xgb70_lgb30_may21.csv''"

text \<open>The literals \<open>0.7\<close> and \<open>0.3\<close> are the float64 values nearest to 7/10 and 3/10.\<close>

definition w_xgb :: f64 where
  "w_xgb = round_f64 (7/10)"

definition w_lgb :: f64 where
  "w_lgb = round_f64 (3/10)"

definition blended_preds :: "frame \<Rightarrow> frame \<Rightarrow> error + f64 list" where
  "blended_preds xgb_df lgb_df =
     bind_err (get_col xgb_df ''Calories'') (\<lambda>xc.
     bind_err (scalar_mul w_xgb xc) (\<lambda>a.
     bind_err (get_col lgb_df ''Calories'') (\<lambda>lc.
     bind_err (scalar_mul w_lgb lc) (\<lambda>b.
     Inr (series_add a b)))))"

text \<open>
  \<open>pd.DataFrame({'id': ids, 'Calories': preds})\<close> from two Series with the default index:
  the rows are the union of the two indexes, a missing cell is NaN. (Two Series taken from
  well-formed frames that passed the comparison have the same length, and nothing is
  missing.)
\<close>

definition pad_col :: "nat \<Rightarrow> column \<Rightarrow> column" where
  "pad_col n xs = map (\<lambda>i. if i < length xs then xs ! i else F NaN) [0 ..< n]"

definition submission_frame :: "column \<Rightarrow> column \<Rightarrow> frame" where
  "submission_frame ids preds =
     (let n = max (length ids) (length preds)
      in [(''id'', pad_col n ids), (''Calories'', pad_col n preds)])"

text \<open>
  The notebook, statement by statement. The result is the file system when the notebook
  stops, and the exception that stopped it, if any. Nothing is written before the last
  statement, and nothing catches an exception.
\<close>

definition blend_frames :: "frame \<Rightarrow> frame \<Rightarrow> error + frame" where
  "blend_frames xgb_df lgb_df =
     bind_err (get_col xgb_df ''id'') (\<lambda>xid.
     bind_err (get_col lgb_df ''id'') (\<lambda>lid.
     bind_err (series_eq xid lid) (\<lambda>same.
     if \<not> list_all (\<lambda>b. b) same
     then Inl (AssertionError ''IDs do not match between the two submission files.'')
     else
       bind_err (blended_preds xgb_df lgb_df) (\<lambda>preds.
       Inr (submission_frame xid (map F preds))))))"

definition blend_notebook :: "fs \<Rightarrow> fs \<times> error option" where
  "blend_notebook files =
     (case bind_err (read_csv files xgb_file) (\<lambda>xgb_df.
           bind_err (read_csv files lgb_file) (\<lambda>lgb_df.
           blend_frames xgb_df lgb_df)) of
        Inl e \<Rightarrow> (files, Some e)
      | Inr submission_blended \<Rightarrow> (to_csv files output_path submission_blended, None))"

section \<open>preprocessing_step2: drop ids, encode Sex, transform the target\<close>

text \<open>\<open>df.drop(columns=[name])\<close> raises \<open>KeyError\<close> when the frame has no such column.\<close>

definition drop_col :: "frame \<Rightarrow> string \<Rightarrow> error + frame" where
  "drop_col df name =
     (if name \<in> set (columns df) then Inr (filter (\<lambda>c. fst c \<noteq> name) df)
      else Inl (KeyError name))"

text \<open>\<open>df[name] = values\<close>: an existing column is replaced in place, a new one is appended.\<close>

definition set_col :: "frame \<Rightarrow> string \<Rightarrow> column \<Rightarrow> frame" where
  "set_col df name c =
     (if name \<in> set (columns df)
      then map (\<lambda>old. if fst old = name then (name, c) else old) df
      else df @ [(name, c)])"

text \<open>
  \<open>pd.get_dummies(df, columns=[name], drop_first=True)\<close> on a column of strings: the
  levels are the distinct values in sorted order, the first level is dropped, and one bool
  column per remaining level, named \<open>name_level\<close>, is appended after the other columns;
  the encoded column itself is removed. Encoding a column that holds anything but strings
  is not modelled.
\<close>

definition str_cells :: "column \<Rightarrow> error + string list" where
  "str_cells c = map_err (\<lambda>x. case x of S s \<Rightarrow> Inr s | _ \<Rightarrow> Inl Unmodelled) c"

definition dummy_columns :: "string \<Rightarrow> string list \<Rightarrow> frame" where
  "dummy_columns name vals =
     map (\<lambda>level. (name @ ''_'' @ level, map (\<lambda>v. B (v = level)) vals))
       (tl (sort (remdups vals)))"

definition get_dummies :: "frame \<Rightarrow> string \<Rightarrow> error + frame" where
  "get_dummies df name =
     bind_err (get_col df name) (\<lambda>c.
     bind_err (str_cells c) (\<lambda>vals.
     Inr (filter (\<lambda>c. fst c \<noteq> name) df @ dummy_columns name vals)))"

text \<open>
  \<open>np.log1p\<close> and \<open>np.expm1\<close> are the C library's functions on float64. Their rounding is
  not fixed by any standard, so they are parameters of the model, here and below.
\<close>

definition series_apply :: "(f64 \<Rightarrow> f64) \<Rightarrow> column \<Rightarrow> error + column" where
  "series_apply f c = map_err (\<lambda>x. bind_err (to_f64 x) (\<lambda>v. Inr (F (f v)))) c"

definition preprocess_frames ::
  "(f64 \<Rightarrow> f64) \<Rightarrow> frame \<Rightarrow> frame \<Rightarrow> error + (frame \<times> frame \<times> column)" where
  "preprocess_frames np_log1p train test =
     bind_err (get_col test ''id'') (\<lambda>test_ids.
     bind_err (drop_col train ''id'') (\<lambda>train1.
     bind_err (drop_col test ''id'') (\<lambda>test1.
     bind_err (get_dummies train1 ''Sex'') (\<lambda>train2.
     bind_err (get_dummies test1 ''Sex'') (\<lambda>test2.
     bind_err (get_col train2 ''Calories'') (\<lambda>cal.
     bind_err (series_apply np_log1p cal) (\<lambda>logcal.
     Inr (set_col train2 ''Calories'' logcal, test2, test_ids))))))))"

definition preprocessing_notebook :: "(f64 \<Rightarrow> f64) \<Rightarrow> fs \<Rightarrow> fs \<times> error option" where
  "preprocessing_notebook np_log1p files =
     (case bind_err (read_csv files ''datasets/train.csv'') (\<lambda>train.
           bind_err (read_csv files ''datasets/test.csv'') (\<lambda>test.
           preprocess_frames np_log1p train test)) of
        Inl e \<Rightarrow> (files, Some e)
      | Inr (train, test, test_ids) \<Rightarrow>
          (to_csv (to_csv (to_csv files
             ''datasets/train_preprocessed.csv'' train)
             ''datasets/test_preprocessed.csv'' test)
             ''datasets/test_ids.csv'' [(''id'', test_ids)], None))"

section \<open>Example inputs\<close>

definition blend_files :: "frame \<Rightarrow> frame \<Rightarrow> fs" where
  "blend_files xgb_df lgb_df = [xgb_file \<mapsto> xgb_df, lgb_file \<mapsto> lgb_df]"

definition example_xgb_df :: frame where
  "example_xgb_df = [(''id'', [I 750000, I 750001]), (''Calories'', [F (Fin 3), F (Fin 0)])]"

definition example_lgb_df :: frame where
  "example_lgb_df = [(''id'', [I 750000, I 750001]), (''Calories'', [F (Fin 3), F (Fin 0)])]"

definition example_lgb_other_id :: frame where
  "example_lgb_other_id = [(''id'', [I 750000, I 750009]), (''Calories'', [F (Fin 3), F (Fin 0)])]"

definition example_lgb_short :: frame where
  "example_lgb_short = [(''id'', [I 750009]), (''Calories'', [F (Fin 3)])]"

text \<open>
  One function that \<open>np.log1p\<close> may be, and one that \<open>np.expm1\<close> may be: the correctly
  rounded ones (so \<open>expm1_rounded\<close> overflows to infinity from about 709.78 on). They stand
  in for the C library where an example needs a concrete function.
\<close>

fun log1p_rounded :: "f64 \<Rightarrow> f64" where
  "log1p_rounded (Fin x) =
     (if x < -1 then NaN else if x = -1 then NInf else round_f64 (ln (1 + x)))"
| "log1p_rounded NegZero = NegZero"
| "log1p_rounded PInf = PInf"
| "log1p_rounded NInf = NaN"
| "log1p_rounded NaN = NaN"

fun expm1_rounded :: "f64 \<Rightarrow> f64" where
  "expm1_rounded (Fin y) = round_f64 (exp y - 1)"
| "expm1_rounded NegZero = NegZero"
| "expm1_rounded PInf = PInf"
| "expm1_rounded NInf = Fin (- 1)"
| "expm1_rounded NaN = NaN"

text \<open>
  The first five rows of the training data, as the preprocessing notebook displays them. A
  decimal such as \<open>39.7\<close> is read as the float64 value nearest to it.
\<close>

definition example_train :: frame where
  "example_train =
     [(''id'', [I 0, I 1, I 2, I 3, I 4]),
      (''Sex'', [S ''male'', S ''female'', S ''female'', S ''male'', S ''female'']),
      (''Age'', [I 36, I 64, I 51, I 20, I 38]),
      (''Height'', [F (Fin 189), F (Fin 163), F (Fin 161), F (Fin 192), F (Fin 166)]),
      (''Weight'', [F (Fin 82), F (Fin 60), F (Fin 64), F (Fin 90), F (Fin 61)]),
      (''Duration'', [F (Fin 26), F (Fin 8), F (Fin 7), F (Fin 25), F (Fin 25)]),
      (''Heart_Rate'', [F (Fin 101), F (Fin 85), F (Fin 84), F (Fin 105), F (Fin 102)]),
      (''Body_Temp'', [F (Fin 41), F (round_f64 (397 / 10)), F (round_f64 (398 / 10)), F (round_f64 (407 / 10)),
                       F (round_f64 (406 / 10))]),
      (''Calories'', [F (Fin 150), F (Fin 34), F (Fin 29), F (Fin 140), F (Fin 146)])]"

definition example_test :: frame where
  "example_test =
     [(''id'', [I 750000, I 750001]),
      (''Sex'', [S ''female'', S ''male'']),
      (''Age'', [I 45, I 26]),
      (''Height'', [F (Fin 177), F (Fin 200)]),
      (''Weight'', [F (Fin 81), F (Fin 97)]),
      (''Duration'', [F (Fin 7), F (Fin 20)]),
      (''Heart_Rate'', [F (Fin 87), F (Fin 101)]),
      (''Body_Temp'', [F (round_f64 (397 / 10)), F (round_f64 (408 / 10))])]"

definition example_raw_files :: fs where
  "example_raw_files = [''datasets/train.csv'' \<mapsto> example_train, ''datasets/test.csv'' \<mapsto> example_test]"

definition example_train_preprocessed :: frame where
  "example_train_preprocessed =
     [(''Age'', [I 36, I 64, I 51, I 20, I 38]),
      (''Height'', [F (Fin 189), F (Fin 163), F (Fin 161), F (Fin 192), F (Fin 166)]),
      (''Weight'', [F (Fin 82), F (Fin 60), F (Fin 64), F (Fin 90), F (Fin 61)]),
      (''Duration'', [F (Fin 26), F (Fin 8), F (Fin 7), F (Fin 25), F (Fin 25)]),
      (''Heart_Rate'', [F (Fin 101), F (Fin 85), F (Fin 84), F (Fin 105), F (Fin 102)]),
      (''Body_Temp'', [F (Fin 41), F (round_f64 (397 / 10)), F (round_f64 (398 / 10)), F (round_f64 (407 / 10)),
                       F (round_f64 (406 / 10))]),
      (''Calories'', [F (round_f64 (ln 151)), F (round_f64 (ln 35)),
                      F (round_f64 (ln 30)), F (round_f64 (ln 141)),
                      F (round_f64 (ln 147))]),
      (''Sex_male'', [B True, B False, B False, B True, B False])]"

definition example_test_preprocessed :: frame where
  "example_test_preprocessed =
     [(''Age'', [I 45, I 26]),
      (''Height'', [F (Fin 177), F (Fin 200)]),
      (''Weight'', [F (Fin 81), F (Fin 97)]),
      (''Duration'', [F (Fin 7), F (Fin 20)]),
      (''Heart_Rate'', [F (Fin 87), F (Fin 101)]),
      (''Body_Temp'', [F (round_f64 (397 / 10)), F (round_f64 (408 / 10))]),
      (''Sex_male'', [B False, B True])]"

definition example_preprocessed_files :: fs where
  "example_preprocessed_files =
     example_raw_files(''datasets/train_preprocessed.csv'' \<mapsto> example_train_preprocessed,
       ''datasets/test_preprocessed.csv'' \<mapsto> example_test_preprocessed,
       ''datasets/test_ids.csv'' \<mapsto> [(''id'', [I 750000, I 750001])])"


text \<open>A training file in which every row is male: rows 0 and 3 of the rows above.\<close>

definition example_train_males :: frame where
  "example_train_males =
     [(''id'', [I 0, I 3]),
      (''Sex'', [S ''male'', S ''male'']),
      (''Age'', [I 36, I 20]),
      (''Height'', [F (Fin 189), F (Fin 192)]),
      (''Weight'', [F (Fin 82), F (Fin 90)]),
      (''Duration'', [F (Fin 26), F (Fin 25)]),
      (''Heart_Rate'', [F (Fin 101), F (Fin 105)]),
      (''Body_Temp'', [F (Fin 41), F (round_f64 (407 / 10))]),
      (''Calories'', [F (Fin 150), F (Fin 140)])]"

definition example_train_males_preprocessed :: frame where
  "example_train_males_preprocessed =
     [(''Age'', [I 36, I 20]),
      (''Height'', [F (Fin 189), F (Fin 192)]),
      (''Weight'', [F (Fin 82), F (Fin 90)]),
      (''Duration'', [F (Fin 26), F (Fin 25)]),
      (''Heart_Rate'', [F (Fin 101), F (Fin 105)]),
      (''Body_Temp'', [F (Fin 41), F (round_f64 (407 / 10))]),
      (''Calories'', [F (round_f64 (ln 151)), F (round_f64 (ln 141))])]"

definition example_males_files :: fs where
  "example_males_files =
     [''datasets/train.csv'' \<mapsto> example_train_males, ''datasets/test.csv'' \<mapsto> example_test]"

definition example_males_preprocessed_files :: fs where
  "example_males_preprocessed_files =
     example_males_files(''datasets/train_preprocessed.csv'' \<mapsto> example_train_males_preprocessed,
       ''datasets/test_preprocessed.csv'' \<mapsto> example_test_preprocessed,
       ''datasets/test_ids.csv'' \<mapsto> [(''id'', [I 750000, I 750001])])"
section \<open>Rounding to float64: basic facts\<close>

lemma ilog2_bounds:
  assumes "x \<noteq> 0"
  shows "2 powi (ilog2 x) \<le> \<bar>x\<bar>" and "\<bar>x\<bar> < 2 powi (ilog2 x + 1)"
proof -
  have pos: "0 < \<bar>x\<bar>" using assms by simp
  have "\<lfloor>log 2 \<bar>x\<bar>\<rfloor> = ilog2 x" by (simp add: ilog2_def)
  then have "2 powr real_of_int (ilog2 x) \<le> \<bar>x\<bar> \<and> \<bar>x\<bar> < 2 powr real_of_int (ilog2 x + 1)"
    using floor_log_eq_powr_iff [of "\<bar>x\<bar>" 2 "ilog2 x"] pos by simp
  then show "2 powi (ilog2 x) \<le> \<bar>x\<bar>" and "\<bar>x\<bar> < 2 powi (ilog2 x + 1)"
    unfolding powr_real_of_int' [of 2, simplified] by auto
qed

lemma ilog2_eqI: "2 powi k \<le> \<bar>x\<bar> \<Longrightarrow> \<bar>x\<bar> < 2 powi (k + 1) \<Longrightarrow> ilog2 x = k"
proof -
  assume a: "2 powi k \<le> \<bar>x\<bar>" and b: "\<bar>x\<bar> < 2 powi (k + 1)"
  have pos: "0 < \<bar>x\<bar>" using a by (smt (verit) zero_less_power_int)
  have "2 powr real_of_int k \<le> \<bar>x\<bar> \<and> \<bar>x\<bar> < 2 powr real_of_int (k + 1)"
    unfolding powr_real_of_int' [of 2, simplified] using a b by auto
  then show ?thesis unfolding ilog2_def
    using floor_log_eq_powr_iff [of "\<bar>x\<bar>" 2 k] pos by simp
qed

lemma powi2_mono: "j \<le> k \<Longrightarrow> (2::real) powi j \<le> 2 powi k"
  by (rule power_int_increasing) simp_all

lemma powi2_less_iff: "(2::real) powi j < 2 powi k \<longleftrightarrow> j < k"
proof
  assume a: "(2::real) powi j < 2 powi k"
  show "j < k"
  proof (rule ccontr)
    assume "\<not> j < k"
    then have "(2::real) powi k \<le> 2 powi j" by (intro powi2_mono) simp
    then show False using a by simp
  qed
next
  assume "j < k"
  then show "(2::real) powi j < 2 powi k" by (rule power_int_strict_increasing) simp
qed

lemma ilog2_less: "x \<noteq> 0 \<Longrightarrow> \<bar>x\<bar> < 2 powi k \<Longrightarrow> ilog2 x < k"
proof -
  assume "x \<noteq> 0" and "\<bar>x\<bar> < 2 powi k"
  then have "(2::real) powi (ilog2 x) < 2 powi k" using ilog2_bounds(1) [of x] by linarith
  then show ?thesis by (simp only: powi2_less_iff)
qed

lemma ilog2_ge: "2 powi k \<le> \<bar>x\<bar> \<Longrightarrow> k \<le> ilog2 x"
proof -
  assume a: "2 powi k \<le> \<bar>x\<bar>"
  then have "x \<noteq> 0" by (smt (verit) zero_less_power_int)
  then have "(2::real) powi k < 2 powi (ilog2 x + 1)" using a ilog2_bounds(2) [of x] by linarith
  then show ?thesis by (simp only: powi2_less_iff)
qed

lemma rne_error: "\<bar>of_int (rne m) - m\<bar> \<le> 1/2"
  unfolding rne_def Let_def by (auto; linarith)

lemma rne_ge: "of_int k \<le> m \<Longrightarrow> k \<le> rne m"
  unfolding rne_def Let_def by (auto simp: le_floor_iff; linarith)

lemma rne_le: "m \<le> of_int k \<Longrightarrow> rne m \<le> k"
proof -
  assume a: "m \<le> of_int k"
  show ?thesis
  proof (cases "m = of_int k")
    case True then show ?thesis by (simp add: rne_def Let_def)
  next
    case False
    then have "m < of_int k" using a by simp
    then have "\<lfloor>m\<rfloor> < k" by (simp add: floor_less_iff)
    then show ?thesis unfolding rne_def Let_def by auto
  qed
qed

lemma rne_of_int [simp]: "rne (of_int k) = k"
  by (simp add: rne_def Let_def)

lemma rne_abs_le: "\<bar>m\<bar> \<le> of_int k \<Longrightarrow> \<bar>rne m\<bar> \<le> k"
proof -
  assume a: "\<bar>m\<bar> \<le> of_int k"
  then have "m \<le> of_int k" and "of_int (- k) \<le> m" by simp_all
  then have "rne m \<le> k" and "- k \<le> rne m" by (simp_all only: rne_le rne_ge)
  then show ?thesis by simp
qed

lemma rne_half: "rne (1/2) = 0" "rne (- 1/2) = 0"
  unfolding rne_def Let_def by (simp_all add: floor_eq_iff)

lemma rne_eq_0_iff: "rne m = 0 \<longleftrightarrow> \<bar>m\<bar> \<le> 1/2"
proof
  assume "rne m = 0"
  then show "\<bar>m\<bar> \<le> 1/2" using rne_error [of m] by simp
next
  assume a: "\<bar>m\<bar> \<le> 1/2"
  consider "m = 1/2" | "m = - 1/2" | "\<bar>m\<bar> < 1/2" using a by linarith
  then show "rne m = 0"
  proof cases
    case 1
    show ?thesis unfolding 1 by (rule rne_half)
  next
    case 2
    show ?thesis unfolding 2 by (rule rne_half)
  next
    case 3
    have "\<bar>of_int (rne m)\<bar> < (1::real)" using rne_error [of m] 3 by linarith
    then show ?thesis by linarith
  qed
qed

lemma quantum_ge: "- 1074 \<le> quantum x"
  by (simp add: quantum_def)

lemma quantum_ge_ilog2: "ilog2 x - 52 \<le> quantum x"
  by (simp add: quantum_def)

lemma quantum_normal: "2 powi (- 1022) \<le> \<bar>x\<bar> \<Longrightarrow> quantum x = ilog2 x - 52"
  using ilog2_ge [of "- 1022" x] by (simp add: quantum_def)

lemma quantum_subnormal: "x \<noteq> 0 \<Longrightarrow> \<bar>x\<bar> < 2 powi (- 1022) \<Longrightarrow> quantum x = - 1074"
  using ilog2_less [of x "- 1022"] by (simp add: quantum_def)

text \<open>The scaled significand is below \<open>2^53\<close>, and at least \<open>2^52\<close> in the normal range.\<close>

lemma scaled_less:
  assumes "x \<noteq> 0"
  shows "\<bar>x / 2 powi quantum x\<bar> < 2 ^ 53"
proof -
  have p: "(0::real) < 2 powi quantum x" by simp
  have "\<bar>x\<bar> < 2 powi (ilog2 x + 1)" by (rule ilog2_bounds(2) [OF assms])
  also have "(2::real) powi (ilog2 x + 1) = 2 ^ 53 * 2 powi (ilog2 x - 52)"
    by (simp add: power_int_diff power_int_add)
  also have "\<dots> \<le> 2 ^ 53 * 2 powi quantum x"
    by (intro mult_left_mono powi2_mono quantum_ge_ilog2) simp
  finally have "\<bar>x\<bar> / 2 powi quantum x < 2 ^ 53" using p by (simp add: pos_divide_less_eq)
  then show ?thesis by simp
qed

lemma scaled_ge:
  assumes "2 powi (- 1022) \<le> \<bar>x\<bar>"
  shows "2 ^ 52 \<le> \<bar>x / 2 powi quantum x\<bar>"
proof -
  have nz: "x \<noteq> 0" using assms by (smt (verit) zero_less_power_int)
  have q: "quantum x = ilog2 x - 52" by (rule quantum_normal [OF assms])
  have p: "(0::real) < 2 powi quantum x" by simp
  have "(2::real) ^ 52 * 2 powi quantum x = 2 powi (ilog2 x)"
    by (simp add: q power_int_diff)
  also have "\<dots> \<le> \<bar>x\<bar>" by (rule ilog2_bounds(1) [OF nz])
  finally have "2 ^ 52 \<le> \<bar>x\<bar> / 2 powi quantum x" using p by (simp add: pos_le_divide_eq)
  then show ?thesis by simp
qed

lemma round_real_0 [simp]: "round_real 0 = 0"
  by (simp add: round_real_def)

lemma round_real_nonneg: "0 \<le> x \<Longrightarrow> 0 \<le> round_real x"
proof -
  assume "0 \<le> x"
  then have "0 \<le> x / 2 powi quantum x" by simp
  then have "0 \<le> rne (x / 2 powi quantum x)" using rne_ge [of 0] by simp
  then show ?thesis by (simp add: round_real_def)
qed

lemma round_real_nonpos: "x \<le> 0 \<Longrightarrow> round_real x \<le> 0"
proof -
  assume "x \<le> 0"
  then have "x / 2 powi quantum x \<le> 0" by (simp add: divide_nonpos_pos)
  then have "rne (x / 2 powi quantum x) \<le> 0" using rne_le [of _ 0] by simp
  then show ?thesis by (simp add: round_real_def mult_nonpos_nonneg)
qed

text \<open>The rounding error is at most half a unit of the last place.\<close>

lemma round_real_abs_error: "\<bar>round_real x - x\<bar> \<le> 2 powi quantum x / 2"
proof (cases "x = 0")
  case True then show ?thesis by simp
next
  case nz: False
  define p where "p = (2::real) powi quantum x"
  define m where "m = x / p"
  have p: "0 < p" by (simp add: p_def)
  have x: "x = m * p" using p by (simp add: m_def)
  have "round_real x = of_int (rne m) * p"
    using nz by (simp add: round_real_def m_def p_def)
  then have "round_real x - x = (of_int (rne m) - m) * p"
    using x by (simp add: algebra_simps)
  then have "\<bar>round_real x - x\<bar> = \<bar>of_int (rne m) - m\<bar> * p"
    using p by (simp add: abs_mult)
  also have "\<dots> \<le> (1/2) * p"
    using rne_error [of m] p by (intro mult_right_mono) simp_all
  finally show ?thesis by (simp add: p_def)
qed

lemma round_real_rel_error:
  assumes "2 powi (- 1022) \<le> \<bar>x\<bar>"
  shows "\<bar>round_real x - x\<bar> \<le> \<bar>x\<bar> / 2 ^ 53"
proof -
  define p where "p = (2::real) powi quantum x"
  have p: "0 < p" by (simp add: p_def)
  have "2 ^ 52 \<le> \<bar>x / p\<bar>" using scaled_ge [OF assms] by (simp only: p_def)
  then have "2 ^ 52 * p \<le> \<bar>x\<bar>" using p by (simp add: pos_le_divide_eq)
  then have "p / 2 \<le> \<bar>x\<bar> / 2 ^ 53" by simp
  then show ?thesis using round_real_abs_error [of x] by (simp only: p_def)
qed

lemma round_real_error: "\<bar>round_real x - x\<bar> \<le> \<bar>x\<bar> / 2 ^ 53 + 2 powi (- 1075)"
proof (cases "2 powi (- 1022) \<le> \<bar>x\<bar>")
  case True
  have "(0::real) \<le> 2 powi (- 1075)" by simp
  then show ?thesis using round_real_rel_error [OF True] by linarith
next
  case False
  show ?thesis
  proof (cases "x = 0")
    case True then show ?thesis by simp
  next
    case nz: False
    have "quantum x = - 1074" using quantum_subnormal [OF nz] False by simp
    then have "\<bar>round_real x - x\<bar> \<le> 2 powi (- 1074) / 2"
      using round_real_abs_error [of x] by simp
    also have "(2::real) powi (- 1074) / 2 = 2 powi (- 1075)"
      by (simp add: power_int_minus field_simps)
    finally have "\<bar>round_real x - x\<bar> \<le> 2 powi (- 1075)" .
    moreover have "0 \<le> \<bar>x\<bar> / 2 ^ 53" by simp
    ultimately show ?thesis by linarith
  qed
qed

text \<open>Rounding never crosses a power of two, so magnitudes up to \<open>2^1023\<close> cannot overflow.\<close>

lemma round_real_le_powi:
  assumes "\<bar>x\<bar> \<le> 2 powi k" and "- 1074 \<le> k"
  shows "\<bar>round_real x\<bar> \<le> 2 powi k"
proof (cases "x = 0")
  case True then show ?thesis by simp
next
  case nz: False
  define q where "q = quantum x"
  have p: "(0::real) < 2 powi q" by simp
  have "ilog2 x \<le> k" using ilog2_bounds(1) [OF nz] assms(1)
    by (smt (verit) powi2_less_iff)
  then have qk: "q \<le> k" using assms(2) by (simp add: q_def quantum_def)
  then obtain n :: nat where n: "k - q = int n" using nonneg_int_cases [of "k - q"] by auto
  have pk: "(2::real) powi k = 2 ^ n * 2 powi q"
  proof -
    have "k = int n + q" using n by simp
    then show ?thesis by (simp add: power_int_add)
  qed
  have "\<bar>x / 2 powi q\<bar> = \<bar>x\<bar> / 2 powi q" by simp
  also have "\<dots> \<le> 2 ^ n" using assms(1) p by (simp add: pk pos_divide_le_eq)
  finally have "\<bar>x / 2 powi q\<bar> \<le> of_int (2 ^ n)" by simp
  then have "\<bar>rne (x / 2 powi q)\<bar> \<le> 2 ^ n" by (rule rne_abs_le)
  then have "\<bar>real_of_int (rne (x / 2 powi q))\<bar> \<le> 2 ^ n"
    by (metis of_int_abs of_int_le_iff of_int_numeral of_int_power)
  then have "\<bar>real_of_int (rne (x / 2 powi q))\<bar> * 2 powi q \<le> 2 ^ n * 2 powi q"
    using p by (intro mult_right_mono) simp_all
  then show ?thesis using nz by (simp add: round_real_def q_def [symmetric] pk abs_mult)
qed

lemma round_real_eq_0_iff: "round_real x = 0 \<longleftrightarrow> \<bar>x\<bar> \<le> 2 powi (- 1075)"
proof (cases "x = 0")
  case True then show ?thesis by simp
next
  case nz: False
  have half: "(2::real) powi (- 1075) = 2 powi (- 1074) / 2"
    by (simp add: power_int_minus field_simps)
  have r: "round_real x = 0 \<longleftrightarrow> \<bar>x / 2 powi quantum x\<bar> \<le> 1/2"
    using nz by (simp add: round_real_def rne_eq_0_iff)
  show ?thesis
  proof (cases "\<bar>x\<bar> < 2 powi (- 1022)")
    case True
    have q: "quantum x = - 1074" by (rule quantum_subnormal [OF nz True])
    define p where "p = (2::real) powi (- 1074)"
    have p: "0 < p" by (simp only: p_def zero_less_power_int zero_less_numeral)
    have "\<bar>x / p\<bar> = \<bar>x\<bar> / p" using p by simp
    then have "\<bar>x / p\<bar> \<le> 1/2 \<longleftrightarrow> \<bar>x\<bar> \<le> p / 2"
      using p by (simp add: pos_divide_le_eq)
    then show ?thesis using r by (simp only: q half p_def)
  next
    case False
    then have big: "2 powi (- 1022) \<le> \<bar>x\<bar>" by simp
    have "(2::real) powi (- 1075) < 2 powi (- 1022)" by (simp only: powi2_less_iff)
    then have "\<not> \<bar>x\<bar> \<le> 2 powi (- 1075)" using big by linarith
    moreover have "(1::real) \<le> 2 ^ 52" by simp
    then have "\<not> \<bar>x / 2 powi quantum x\<bar> \<le> 1/2" using scaled_ge [OF big] by linarith
    ultimately show ?thesis using r by simp
  qed
qed

text \<open>What \<open>round_f64\<close> returns, by the size of the rounded value.\<close>

lemma round_f64_finite:
  assumes "\<bar>round_real x\<bar> < 2 ^ 1024"
  shows "is_finite (round_f64 x)" and "valof (round_f64 x) = round_real x"
  using assms by (simp_all add: round_f64_def Let_def)

lemma round_f64_nonneg:
  assumes "0 \<le> x" and "\<bar>round_real x\<bar> < 2 ^ 1024"
  shows "round_f64 x = Fin (round_real x)"
  using assms by (simp add: round_f64_def Let_def)

lemma round_f64_not_nan [simp]: "\<not> is_nan (round_f64 x)"
  by (simp add: round_f64_def Let_def)

lemma round_f64_0 [simp]: "round_f64 0 = Fin 0"
  by (simp add: round_f64_def)

section \<open>Errors and row-wise maps\<close>

lemma bind_err_Inl [simp]: "bind_err (Inl e) f = Inl e"
  by (simp add: bind_err_def)

lemma bind_err_Inr [simp]: "bind_err (Inr v) f = f v"
  by (simp add: bind_err_def)

lemma bind_err_eq_Inr: "bind_err m f = Inr r \<longleftrightarrow> (\<exists>v. m = Inr v \<and> f v = Inr r)"
  by (cases m) simp_all

lemma bind_err_eq_Inl: "bind_err m f = Inl e \<longleftrightarrow> m = Inl e \<or> (\<exists>v. m = Inr v \<and> f v = Inl e)"
  by (cases m) simp_all

lemma map_err_eq_Inr:
  "map_err f xs = Inr ys \<longleftrightarrow> length ys = length xs \<and> (\<forall>i < length xs. f (xs ! i) = Inr (ys ! i))"
proof (induction xs arbitrary: ys)
  case Nil
  then show ?case by auto
next
  case (Cons x xs)
  show ?case
  proof (cases ys)
    case Nil
    then show ?thesis by (auto split: sum.splits)
  next
    case (Cons y ys')
    then show ?thesis
      using Cons.IH [of ys'] by (auto split: sum.splits simp: nth_Cons less_Suc_eq_0_disj)
  qed
qed

lemma map_err_total:
  assumes "\<And>x. x \<in> set xs \<Longrightarrow> \<exists>y. f x = Inr y"
  shows "\<exists>ys. map_err f xs = Inr ys"
  using assms
proof (induction xs)
  case Nil
  then show ?case by simp
next
  case (Cons x xs)
  then obtain y ys where "f x = Inr y" "map_err f xs = Inr ys" by (meson list.set_intros)
  then show ?case by simp
qed

section \<open>Evaluating a rounding, and finite results of the operations\<close>

lemma round_real_eval:
  assumes "2 powi k \<le> \<bar>x\<bar>" "\<bar>x\<bar> < 2 powi (k + 1)" "- 1022 \<le> k"
  shows "round_real x = of_int (rne (x / 2 powi (k - 52))) * 2 powi (k - 52)"
proof -
  have "ilog2 x = k" using assms(1,2) by (rule ilog2_eqI)
  moreover have "x \<noteq> 0" using assms(1) by (smt (verit) zero_less_power_int abs_zero)
  ultimately show ?thesis using assms(3) by (simp add: round_real_def quantum_def)
qed

lemma pow_1024: "(2::real) ^ 1024 = 2 powi 1024"
  by simp

lemma round_f64_eval:
  assumes "2 powi k \<le> x" "x < 2 powi (k + 1)" "- 1022 \<le> k" "k \<le> 1022"
  shows "round_f64 x = Fin (of_int (rne (x / 2 powi (k - 52))) * 2 powi (k - 52))"
proof -
  have pos: "0 < x" using assms(1) by (smt (verit) zero_less_power_int)
  then have ax: "\<bar>x\<bar> = x" by simp
  have "\<bar>round_real x\<bar> \<le> 2 powi (k + 1)"
    using assms(2,3) ax by (intro round_real_le_powi) simp_all
  also have "(2::real) powi (k + 1) < 2 powi 1024"
    using assms(4) by (simp only: powi2_less_iff)
  finally have "\<bar>round_real x\<bar> < 2 ^ 1024" by (simp only: pow_1024)
  then have "round_f64 x = Fin (round_real x)" using pos by (intro round_f64_nonneg) simp_all
  then show ?thesis using round_real_eval [of k x] assms ax by simp
qed

lemma w_xgb_value: "w_xgb = Fin (3152519739159347 / 4503599627370496)"
  unfolding w_xgb_def by (subst round_f64_eval [where k = "-1"]) (simp_all add: rne_def Let_def)

lemma w_lgb_value: "w_lgb = Fin (5404319552844595 / 18014398509481984)"
  unfolding w_lgb_def by (subst round_f64_eval [where k = "-2"]) (simp_all add: rne_def Let_def)

lemma is_finite_simps [simp]:
  "is_finite (zero_of_sign s)" "\<not> is_finite (inf_of_sign s)"
  "valof (zero_of_sign s) = 0" "is_zero (zero_of_sign s)"
  "\<not> is_nan (zero_of_sign s)" "\<not> is_nan (inf_of_sign s)" "is_inf (inf_of_sign s)"
  "\<not> is_inf (zero_of_sign s)" "\<not> is_zero (inf_of_sign s)"
  by (simp_all add: zero_of_sign_def inf_of_sign_def)

lemma is_finite_cases: "is_finite a \<Longrightarrow> \<not> is_nan a \<and> \<not> is_inf a \<and> (is_zero a \<longleftrightarrow> valof a = 0)"
  by (cases a) simp_all

lemma fmul_finite:
  assumes "is_finite a" "is_finite b" "\<bar>round_real (valof a * valof b)\<bar> < 2 ^ 1024"
  shows "is_finite (fmul a b)" and "valof (fmul a b) = round_real (valof a * valof b)"
  using assms is_finite_cases [of a] is_finite_cases [of b]
  by (auto simp: fmul_def round_f64_finite)

lemma fadd_finite:
  assumes "is_finite a" "is_finite b" "\<bar>round_real (valof a + valof b)\<bar> < 2 ^ 1024"
  shows "is_finite (fadd a b)" and "valof (fadd a b) = round_real (valof a + valof b)"
  using assms is_finite_cases [of a] is_finite_cases [of b]
  by (auto simp: fadd_def round_f64_finite)

lemma big_consts:
  "(2::real) ^ 1024 - 2 ^ 970 = (2 ^ 53 - 1/2) * 2 powi 971"
  "((2::real) ^ 53 - 1) * 2 powi 971 < 2 ^ 1024"
  "(2::real) powi (1023 + 1) = 2 ^ 1024"
  by simp_all

lemma int_abs_less_real: "\<bar>real_of_int n\<bar> < 2 ^ k \<Longrightarrow> \<bar>real_of_int n\<bar> \<le> 2 ^ k - 1"
proof -
  assume "\<bar>real_of_int n\<bar> < 2 ^ k"
  then have "real_of_int \<bar>n\<bar> < real_of_int (2 ^ k)" by simp
  then have "\<bar>n\<bar> < 2 ^ k" by (simp only: of_int_less_iff)
  then have "\<bar>n\<bar> \<le> 2 ^ k - 1" by simp
  then have "real_of_int \<bar>n\<bar> \<le> real_of_int (2 ^ k - 1)" by (simp only: of_int_le_iff)
  then show ?thesis by simp
qed

lemma round_real_no_overflow:
  assumes "\<bar>x\<bar> < 2 ^ 1024 - 2 ^ 970"
  shows "\<bar>round_real x\<bar> < 2 ^ 1024"
proof (cases "\<bar>x\<bar> \<le> 2 powi 1023")
  case True
  then have "\<bar>round_real x\<bar> \<le> 2 powi 1023" by (rule round_real_le_powi) simp
  also have "(2::real) powi 1023 < 2 powi 1024" by (simp only: powi2_less_iff)
  finally show ?thesis by (simp only: pow_1024)
next
  case False
  define p where "p = (2::real) powi 971"
  have p: "0 < p" by (simp only: p_def zero_less_power_int zero_less_numeral)
  from False have lo: "2 powi 1023 \<le> \<bar>x\<bar>" by simp
  have "(2::real) ^ 1024 - 2 ^ 970 \<le> 2 ^ 1024" by simp
  then have hi: "\<bar>x\<bar> < 2 powi (1023 + 1)" using assms by (simp only: big_consts(3))
  define m where "m = x / p"
  have r: "round_real x = of_int (rne m) * p"
    using round_real_eval [OF lo hi] by (simp add: m_def p_def)
  have "\<bar>x\<bar> < (2 ^ 53 - 1/2) * p" using assms by (simp only: big_consts(1) p_def)
  then have "\<bar>x\<bar> / p < 2 ^ 53 - 1/2" using p by (simp only: pos_divide_less_eq)
  then have "\<bar>m\<bar> < 2 ^ 53 - 1/2" using p by (simp add: m_def)
  then have "\<bar>real_of_int (rne m)\<bar> < 2 ^ 53" using rne_error [of m] by linarith
  then have "\<bar>real_of_int (rne m)\<bar> \<le> 2 ^ 53 - 1" by (rule int_abs_less_real)
  then have "\<bar>real_of_int (rne m)\<bar> * p \<le> (2 ^ 53 - 1) * p"
    using p by (intro mult_right_mono) simp_all
  also have "\<dots> < 2 ^ 1024" by (simp only: p_def big_consts(2))
  finally show ?thesis using p by (simp add: r abs_mult)
qed

lemma is_f64_round: "is_f64 x \<Longrightarrow> round_real x = x \<and> \<bar>x\<bar> < 2 ^ 1024"
  by (auto simp: is_f64_def round_f64_def Let_def split: if_splits)

lemma big_consts2:
  "(2::real) powi 1023 \<le> 2 ^ 1024 - 2 ^ 971"
  "(2::real) ^ 1024 = 2 ^ 53 * 2 powi 971"
  "((2::real) ^ 53 - 1) * 2 powi 971 = 2 ^ 1024 - 2 ^ 971"
  by simp_all

lemma is_f64_le_max:
  assumes "is_f64 x"
  shows "\<bar>x\<bar> \<le> 2 ^ 1024 - 2 ^ 971"
proof (cases "\<bar>x\<bar> \<le> 2 powi 1023")
  case True
  then show ?thesis using big_consts2(1) by linarith
next
  case False
  define p where "p = (2::real) powi 971"
  have p: "0 < p" by (simp only: p_def zero_less_power_int zero_less_numeral)
  from False have lo: "2 powi 1023 \<le> \<bar>x\<bar>" by simp
  have lt: "\<bar>x\<bar> < 2 ^ 1024" and rx: "round_real x = x" using is_f64_round [OF assms] by simp_all
  have hi: "\<bar>x\<bar> < 2 powi (1023 + 1)" using lt by (simp only: big_consts(3))
  define n where "n = rne (x / p)"
  have x: "x = of_int n * p"
    using round_real_eval [OF lo hi] rx by (simp add: n_def p_def)
  have "\<bar>real_of_int n\<bar> * p < 2 ^ 53 * p"
    using lt p unfolding big_consts2(2) p_def [symmetric] by (subst (asm) x) (simp add: abs_mult)
  then have "\<bar>real_of_int n\<bar> < 2 ^ 53" using p by simp
  then have "\<bar>real_of_int n\<bar> \<le> 2 ^ 53 - 1" by (rule int_abs_less_real)
  then have "\<bar>real_of_int n\<bar> * p \<le> (2 ^ 53 - 1) * p"
    using p by (intro mult_right_mono) simp_all
  also have "\<dots> = 2 ^ 1024 - 2 ^ 971" by (simp only: p_def big_consts2(3))
  finally show ?thesis using p by (subst x) (simp add: abs_mult)
qed

section \<open>The blend: rows, weights and failures\<close>

lemma series_eq_eq_Inr:
  "series_eq xs ys = Inr bs \<longleftrightarrow>
     length xs = length ys \<and> bs = map (\<lambda>(x, y). cell_eq x y) (zip xs ys)"
  by (auto simp: series_eq_def)

lemma all_same_iff:
  assumes "length xs = length ys"
  shows "list_all (\<lambda>b. b) (map (\<lambda>(x, y). cell_eq x y) (zip xs ys)) \<longleftrightarrow>
         (\<forall>i < length xs. cell_eq (xs ! i) (ys ! i))"
  using assms by (auto simp: list_all_length)

lemma scalar_mul_eq_Inr:
  "scalar_mul w xs = Inr ps \<longleftrightarrow>
     length ps = length xs \<and> (\<forall>i < length xs. \<exists>x. to_f64 (xs ! i) = Inr x \<and> ps ! i = fmul w x)"
  unfolding scalar_mul_def map_err_eq_Inr
  by (auto simp: bind_err_eq_Inr)

lemma series_add_length [simp]: "length (series_add xs ys) = max (length xs) (length ys)"
  by (simp add: series_add_def)

lemma series_add_nth:
  "i < length xs \<Longrightarrow> i < length ys \<Longrightarrow> series_add xs ys ! i = fadd (xs ! i) (ys ! i)"
  by (simp add: series_add_def)

lemma blended_preds_rows:
  assumes "blended_preds xgb_df lgb_df = Inr preds"
    and "get_col xgb_df ''Calories'' = Inr xc" and "get_col lgb_df ''Calories'' = Inr lc"
  shows "length preds = max (length xc) (length lc)"
    and "i < length xc \<Longrightarrow> i < length lc \<Longrightarrow>
         \<exists>a b. to_f64 (xc ! i) = Inr a \<and> to_f64 (lc ! i) = Inr b \<and>
               preds ! i = fadd (fmul w_xgb a) (fmul w_lgb b)"
proof -
  from assms obtain ps qs where
    ps: "scalar_mul w_xgb xc = Inr ps" and qs: "scalar_mul w_lgb lc = Inr qs"
    and preds: "preds = series_add ps qs"
    by (auto simp: blended_preds_def bind_err_eq_Inr)
  from ps qs show "length preds = max (length xc) (length lc)"
    by (simp add: preds scalar_mul_eq_Inr)
  assume i: "i < length xc" "i < length lc"
  from ps i obtain a where a: "to_f64 (xc ! i) = Inr a" "ps ! i = fmul w_xgb a"
    unfolding scalar_mul_eq_Inr by blast
  from qs i obtain b where b: "to_f64 (lc ! i) = Inr b" "qs ! i = fmul w_lgb b"
    unfolding scalar_mul_eq_Inr by blast
  have "preds ! i = fadd (ps ! i) (qs ! i)"
    using ps qs i by (simp add: preds series_add_nth scalar_mul_eq_Inr)
  with a b show "\<exists>a b. to_f64 (xc ! i) = Inr a \<and> to_f64 (lc ! i) = Inr b \<and>
               preds ! i = fadd (fmul w_xgb a) (fmul w_lgb b)" by simp
qed

lemma blended_preds_columns:
  assumes "blended_preds xgb_df lgb_df = Inr preds"
  shows "\<exists>xc lc. get_col xgb_df ''Calories'' = Inr xc \<and> get_col lgb_df ''Calories'' = Inr lc"
  using assms by (auto simp: blended_preds_def bind_err_eq_Inr)

lemma pad_col_same [simp]: "pad_col (length xs) xs = xs"
  by (rule nth_equalityI) (simp_all add: pad_col_def)

lemma get_col_Inl: "get_col df name = Inl e \<longleftrightarrow> map_of df name = None \<and> e = KeyError name"
  by (auto simp: get_col_def split: option.splits)

lemma to_f64_Inl: "to_f64 c = Inl e \<Longrightarrow> e = TypeError \<or> e = Unmodelled"
  by (cases c) auto

lemma map_err_Inl: "map_err f xs = Inl e \<Longrightarrow> \<exists>x \<in> set xs. f x = Inl e"
  by (induction xs) (auto split: sum.splits)

lemma scalar_mul_Inl: "scalar_mul w xs = Inl e \<Longrightarrow> e = TypeError \<or> e = Unmodelled"
  unfolding scalar_mul_def
  by (auto dest!: map_err_Inl to_f64_Inl simp: bind_err_eq_Inl)

lemma blended_preds_Inl:
  "blended_preds xgb_df lgb_df = Inl e \<Longrightarrow>
     e = TypeError \<or> e = Unmodelled \<or> e = KeyError ''Calories''"
  unfolding blended_preds_def
  by (auto simp: bind_err_eq_Inl get_col_Inl dest: scalar_mul_Inl)

lemma series_eq_Inl:
  "series_eq xs ys = Inl e \<longleftrightarrow>
     length xs \<noteq> length ys \<and> e = ValueError ''Can only compare identically-labeled Series objects''"
  by (auto simp: series_eq_def)

text \<open>The assertion: when it is reached, and when it fails.\<close>

lemma blend_frames_assertion:
  "blend_frames xgb_df lgb_df = Inl (AssertionError msg) \<longleftrightarrow>
     msg = ''IDs do not match between the two submission files.'' \<and>
     (\<exists>xid lid. get_col xgb_df ''id'' = Inr xid \<and> get_col lgb_df ''id'' = Inr lid \<and>
        length xid = length lid \<and> (\<exists>i < length xid. \<not> cell_eq (xid ! i) (lid ! i)))"
  (is "?L \<longleftrightarrow> ?R")
proof
  assume L: ?L
  show ?R
  proof (cases "get_col xgb_df ''id''")
    case (Inl e)
    with L show ?thesis by (simp add: blend_frames_def get_col_Inl)
  next
    case xid: (Inr xid)
    show ?thesis
    proof (cases "get_col lgb_df ''id''")
      case (Inl e)
      with L xid show ?thesis by (simp add: blend_frames_def get_col_Inl)
    next
      case lid: (Inr lid)
      show ?thesis
      proof (cases "series_eq xid lid")
        case (Inl e)
        with L xid lid show ?thesis by (simp add: blend_frames_def series_eq_Inl)
      next
        case same: (Inr same)
        then have len: "length xid = length lid"
          and same_def: "same = map (\<lambda>(x, y). cell_eq x y) (zip xid lid)"
          by (simp_all add: series_eq_eq_Inr)
        show ?thesis
        proof (cases "list_all (\<lambda>b. b) same")
          case True
          with L xid lid same have
            "bind_err (blended_preds xgb_df lgb_df) (\<lambda>preds.
             Inr (submission_frame xid (map F preds))) = Inl (AssertionError msg)"
            by (simp add: blend_frames_def)
          then have False
            by (auto simp: bind_err_eq_Inl dest: blended_preds_Inl)
          then show ?thesis ..
        next
          case False
          with L xid lid same have "msg = ''IDs do not match between the two submission files.''"
            by (simp add: blend_frames_def)
          moreover from False have "\<exists>i < length xid. \<not> cell_eq (xid ! i) (lid ! i)"
            using all_same_iff [OF len] by (simp add: same_def)
          ultimately show ?thesis using xid lid len by simp
        qed
      qed
    qed
  qed
next
  assume R: ?R
  then obtain xid lid where xid: "get_col xgb_df ''id'' = Inr xid"
    and lid: "get_col lgb_df ''id'' = Inr lid" and len: "length xid = length lid"
    and diff: "\<exists>i < length xid. \<not> cell_eq (xid ! i) (lid ! i)"
    and msg: "msg = ''IDs do not match between the two submission files.''" by blast
  have "series_eq xid lid = Inr (map (\<lambda>(x, y). cell_eq x y) (zip xid lid))"
    using len by (simp add: series_eq_def)
  moreover have "\<not> list_all (\<lambda>b. b) (map (\<lambda>(x, y). cell_eq x y) (zip xid lid))"
    using diff all_same_iff [OF len] by simp
  ultimately show ?L using xid lid msg by (simp add: blend_frames_def)
qed

lemma blend_files_simps [simp]:
  "blend_files x l xgb_file = Some x" "blend_files x l lgb_file = Some l"
  by (simp_all add: blend_files_def xgb_file_def lgb_file_def)

lemma blend_notebook_cases:
  "blend_notebook files =
     (case files xgb_file of None \<Rightarrow> (files, Some (FileNotFoundError xgb_file))
      | Some xgb_df \<Rightarrow>
          (case files lgb_file of None \<Rightarrow> (files, Some (FileNotFoundError lgb_file))
           | Some lgb_df \<Rightarrow>
               (case blend_frames xgb_df lgb_df of Inl e \<Rightarrow> (files, Some e)
                | Inr out \<Rightarrow> (to_csv files output_path out, None))))"
  by (simp add: blend_notebook_def read_csv_def split: option.splits sum.splits)

lemma blend_notebook_error_keeps_files:
  "snd (blend_notebook files) = Some e \<Longrightarrow> fst (blend_notebook files) = files"
  by (auto simp: blend_notebook_cases split: option.splits sum.splits)

lemma blend_frames_length_mismatch:
  assumes "get_col xgb_df ''id'' = Inr xid" "get_col lgb_df ''id'' = Inr lid"
    "length xid \<noteq> length lid"
  shows "blend_frames xgb_df lgb_df =
         Inl (ValueError ''Can only compare identically-labeled Series objects'')"
  using assms by (simp add: blend_frames_def series_eq_def)

lemma blend_notebook_raises:
  "snd (blend_notebook files) = Some e \<longleftrightarrow>
     (files xgb_file = None \<and> e = FileNotFoundError xgb_file) \<or>
     (\<exists>xgb_df. files xgb_file = Some xgb_df \<and> files lgb_file = None \<and> e = FileNotFoundError lgb_file) \<or>
     (\<exists>xgb_df lgb_df. files xgb_file = Some xgb_df \<and> files lgb_file = Some lgb_df \<and>
        blend_frames xgb_df lgb_df = Inl e)"
  by (auto simp: blend_notebook_cases split: option.splits sum.splits)


lemma example_get_cols [simp]:
  "get_col example_xgb_df ''id'' = Inr [I 750000, I 750001]"
  "get_col example_lgb_df ''id'' = Inr [I 750000, I 750001]"
  "get_col example_lgb_other_id ''id'' = Inr [I 750000, I 750009]"
  "get_col example_lgb_short ''id'' = Inr [I 750009]"
  by (simp_all add: get_col_def example_xgb_df_def example_lgb_df_def
      example_lgb_other_id_def example_lgb_short_def)



subsection \<open>Rounding error of one blended row\<close>

text \<open>
  On the reals: the two rounded products and their rounded sum stay below the overflow
  threshold for all float64 operands, and the result is within four units of rounding of
  the exact weighted sum.
\<close>

lemma blend_rounding:
  fixes a b :: real
  defines "wx \<equiv> 3152519739159347 / 4503599627370496"
    and "wl \<equiv> 5404319552844595 / 18014398509481984"
  defines "p1 \<equiv> round_real (wx * a)" and "p2 \<equiv> round_real (wl * b)"
  assumes a: "\<bar>a\<bar> \<le> 2 ^ 1024 - 2 ^ 971" and b: "\<bar>b\<bar> \<le> 2 ^ 1024 - 2 ^ 971"
  shows "\<bar>p1\<bar> < 2 ^ 1024" and "\<bar>p2\<bar> < 2 ^ 1024" and "\<bar>round_real (p1 + p2)\<bar> < 2 ^ 1024"
    and "\<bar>round_real (p1 + p2) - (7/10 * a + 3/10 * b)\<bar> \<le> max \<bar>a\<bar> \<bar>b\<bar> / 2 ^ 51 + 2 powi (- 1073)"
proof -
  define M where "M = max \<bar>a\<bar> \<bar>b\<bar>"
  define u :: real where "u = 1 / 2 ^ 53"
  define t :: real where "t = 2 powi (- 1075)"
  define c :: real where "c = 2 ^ 1024"
  define K :: real where "K = 2 ^ 1024 - 2 ^ 970"
  have M: "\<bar>a\<bar> \<le> M" "\<bar>b\<bar> \<le> M" "0 \<le> M" by (simp_all add: M_def)
  have Mc: "M \<le> c * (1 - u)" using a b by (simp add: M_def c_def u_def)
  have wx: "0 \<le> wx" "wx \<le> 1" "\<bar>wx - 7/10\<bar> \<le> u / 2" by (simp_all add: wx_def u_def)
  have wl: "0 \<le> wl" "wl \<le> 1" "\<bar>wl - 3/10\<bar> \<le> u / 2" by (simp_all add: wl_def u_def)
  have u: "0 \<le> u" "u \<le> 1/2" by (simp_all add: u_def)
  have t: "0 \<le> t" by (simp add: t_def)
  have wsum: "wx + wl = 1 - u / 2" by (simp add: wx_def wl_def u_def)
  have K: "K = (1 - u / 2) * c" by (simp add: K_def c_def u_def)
  have tK: "2 * t < K * (u * u)" by (simp add: t_def K_def u_def)
  have wxK: "wx * (c * (1 - u)) < K" "wl * (c * (1 - u)) < K"
    by (simp_all add: wx_def wl_def c_def u_def K_def)
  have t4: "4 * t = 2 powi (- 1073)" by (simp add: t_def)
  have e1: "\<bar>p1 - wx * a\<bar> \<le> wx * (M * u) + t"
  proof -
    have "\<bar>p1 - wx * a\<bar> \<le> \<bar>wx * a\<bar> * u + t"
      using round_real_error [of "wx * a"] by (simp add: p1_def u_def t_def)
    also have "\<bar>wx * a\<bar> = wx * \<bar>a\<bar>" using wx(1) by (simp add: abs_mult)
    also have "wx * \<bar>a\<bar> * u \<le> wx * M * u" using wx(1) M u by (intro mult_mono) simp_all
    finally show ?thesis by (simp add: mult.assoc)
  qed
  have e2: "\<bar>p2 - wl * b\<bar> \<le> wl * (M * u) + t"
  proof -
    have "\<bar>p2 - wl * b\<bar> \<le> \<bar>wl * b\<bar> * u + t"
      using round_real_error [of "wl * b"] by (simp add: p2_def u_def t_def)
    also have "\<bar>wl * b\<bar> = wl * \<bar>b\<bar>" using wl(1) by (simp add: abs_mult)
    also have "wl * \<bar>b\<bar> * u \<le> wl * M * u" using wl(1) M u by (intro mult_mono) simp_all
    finally show ?thesis by (simp add: mult.assoc)
  qed
  have xa: "\<bar>wx * a\<bar> < K"
  proof -
    have "\<bar>wx * a\<bar> = wx * \<bar>a\<bar>" using wx(1) by (simp add: abs_mult)
    also have "\<dots> \<le> wx * (c * (1 - u))" using wx(1) M(1) Mc by (intro mult_left_mono) simp_all
    finally show ?thesis using wxK(1) by simp
  qed
  have xb: "\<bar>wl * b\<bar> < K"
  proof -
    have "\<bar>wl * b\<bar> = wl * \<bar>b\<bar>" using wl(1) by (simp add: abs_mult)
    also have "\<dots> \<le> wl * (c * (1 - u))" using wl(1) M(2) Mc by (intro mult_left_mono) simp_all
    finally show ?thesis using wxK(2) by simp
  qed
  show "\<bar>p1\<bar> < 2 ^ 1024" unfolding p1_def
    using xa by (intro round_real_no_overflow) (simp only: K_def)
  show "\<bar>p2\<bar> < 2 ^ 1024" unfolding p2_def
    using xb by (intro round_real_no_overflow) (simp only: K_def)
  have ax: "\<bar>wx * a\<bar> = wx * \<bar>a\<bar>" "\<bar>wl * b\<bar> = wl * \<bar>b\<bar>"
    using wx(1) wl(1) by (simp_all add: abs_mult)
  have "\<bar>p1\<bar> \<le> wx * \<bar>a\<bar> + (wx * (M * u) + t)" using e1 ax(1) by linarith
  also have "wx * \<bar>a\<bar> \<le> wx * M" using wx(1) M(1) by (intro mult_left_mono)
  finally have P1: "\<bar>p1\<bar> \<le> wx * M + wx * (M * u) + t" by simp
  have "\<bar>p2\<bar> \<le> wl * \<bar>b\<bar> + (wl * (M * u) + t)" using e2 ax(2) by linarith
  also have "wl * \<bar>b\<bar> \<le> wl * M" using wl(1) M(2) by (intro mult_left_mono)
  finally have P2: "\<bar>p2\<bar> \<le> wl * M + wl * (M * u) + t" by simp
  have "\<bar>p1 + p2\<bar> \<le> (wx + wl) * (M * (1 + u)) + 2 * t"
    using P1 P2 by (simp add: algebra_simps)
  also have "\<dots> = (1 - u / 2) * (1 + u) * M + 2 * t" unfolding wsum by (simp add: algebra_simps)
  also have "(1 - u / 2) * (1 + u) * M \<le> (1 - u / 2) * (1 + u) * (c * (1 - u))"
    using u Mc by (intro mult_left_mono) simp_all
  also have "(1 - u / 2) * (1 + u) * (c * (1 - u)) = K - K * (u * u)"
    by (simp add: K field_simps)
  finally have S: "\<bar>p1 + p2\<bar> < K" using tK by simp
  show "\<bar>round_real (p1 + p2)\<bar> < 2 ^ 1024"
    using S by (intro round_real_no_overflow) (simp only: K_def)
  have d1: "\<bar>wx * a - 7/10 * a\<bar> \<le> u / 2 * M"
  proof -
    have "\<bar>wx * a - 7/10 * a\<bar> = \<bar>wx - 7/10\<bar> * \<bar>a\<bar>"
      by (simp add: abs_mult [symmetric] algebra_simps)
    also have "\<dots> \<le> u / 2 * M" using wx(3) M u by (intro mult_mono) simp_all
    finally show ?thesis .
  qed
  have d2: "\<bar>wl * b - 3/10 * b\<bar> \<le> u / 2 * M"
  proof -
    have "\<bar>wl * b - 3/10 * b\<bar> = \<bar>wl - 3/10\<bar> * \<bar>b\<bar>"
      by (simp add: abs_mult [symmetric] algebra_simps)
    also have "\<dots> \<le> u / 2 * M" using wl(3) M u by (intro mult_mono) simp_all
    finally show ?thesis .
  qed
  have e12: "wx * (M * u) + wl * (M * u) \<le> M * u"
  proof -
    have "(wx + wl) * (M * u) \<le> 1 * (M * u)"
      using wsum M(3) u by (intro mult_right_mono) simp_all
    then show ?thesis by (simp add: algebra_simps)
  qed
  have exact: "\<bar>7/10 * a + 3/10 * b\<bar> \<le> M" using M by linarith
  have tri: "\<bar>A + B + C + D\<bar> \<le> \<bar>A\<bar> + \<bar>B\<bar> + \<bar>C\<bar> + \<bar>D\<bar>" for A B C D :: real
    by linarith
  have split: "(p1 + p2) - (7/10 * a + 3/10 * b) =
        (p1 - wx * a) + (p2 - wl * b) + (wx * a - 7/10 * a) + (wl * b - 3/10 * b)" by simp
  have "\<bar>(p1 + p2) - (7/10 * a + 3/10 * b)\<bar> \<le>
        \<bar>p1 - wx * a\<bar> + \<bar>p2 - wl * b\<bar> + \<bar>wx * a - 7/10 * a\<bar> + \<bar>wl * b - 3/10 * b\<bar>"
    unfolding split by (rule tri)
  also have "\<dots> \<le> wx * (M * u) + t + (wl * (M * u) + t) + u / 2 * M + u / 2 * M"
    using e1 e2 d1 d2 by linarith
  also have "\<dots> \<le> 2 * (M * u) + 2 * t" using e12 by simp
  finally have sum: "\<bar>(p1 + p2) - (7/10 * a + 3/10 * b)\<bar> \<le> 2 * (M * u) + 2 * t" .
  then have abs_sum: "\<bar>p1 + p2\<bar> \<le> M + 2 * (M * u) + 2 * t" using exact by linarith
  have "\<bar>round_real (p1 + p2) - (p1 + p2)\<bar> \<le> \<bar>p1 + p2\<bar> * u + t"
    using round_real_error [of "p1 + p2"] by (simp add: u_def t_def)
  also have "\<bar>p1 + p2\<bar> * u \<le> (M + 2 * (M * u) + 2 * t) * u"
    using abs_sum u by (intro mult_right_mono) simp_all
  finally have last: "\<bar>round_real (p1 + p2) - (p1 + p2)\<bar> \<le> (M + 2 * (M * u) + 2 * t) * u + t"
    by simp
  have "2 * u * (M * u) \<le> 1 * (M * u)"
    using M(3) u by (intro mult_right_mono) simp_all
  moreover have "2 * t * u \<le> 2 * t * (1/2)" using t u by (intro mult_left_mono) simp_all
  ultimately have "(M + 2 * (M * u) + 2 * t) * u + t \<le> 2 * (M * u) + 2 * t"
    by (simp add: algebra_simps)
  with last sum have "\<bar>round_real (p1 + p2) - (7/10 * a + 3/10 * b)\<bar> \<le> 4 * (M * u) + 4 * t"
    by linarith
  also have "4 * (M * u) = M / 2 ^ 51" by (simp add: u_def)
  finally show "\<bar>round_real (p1 + p2) - (7/10 * a + 3/10 * b)\<bar> \<le> max \<bar>a\<bar> \<bar>b\<bar> / 2 ^ 51 + 2 powi (- 1073)"
    by (simp only: t4 M_def)
qed


lemma w_finite [simp]:
  "is_finite w_xgb" "valof w_xgb = 3152519739159347 / 4503599627370496"
  "is_finite w_lgb" "valof w_lgb = 5404319552844595 / 18014398509481984"
  by (simp_all add: w_xgb_value w_lgb_value)

lemma blend_value:
  assumes "is_finite a" "is_finite b" "is_f64 (valof a)" "is_f64 (valof b)"
  shows "is_finite (fadd (fmul w_xgb a) (fmul w_lgb b))"
    and "\<bar>valof (fadd (fmul w_xgb a) (fmul w_lgb b)) - (7/10 * valof a + 3/10 * valof b)\<bar>
           \<le> max \<bar>valof a\<bar> \<bar>valof b\<bar> / 2 ^ 51 + 2 powi (- 1073)"
    and "0 \<le> valof a \<Longrightarrow> 0 \<le> valof b \<Longrightarrow> 0 \<le> valof (fadd (fmul w_xgb a) (fmul w_lgb b))"
proof -
  let ?wx = "3152519739159347 / 4503599627370496 :: real"
  let ?wl = "5404319552844595 / 18014398509481984 :: real"
  note R = blend_rounding [OF is_f64_le_max [OF assms(3)] is_f64_le_max [OF assms(4)]]
  have p1: "is_finite (fmul w_xgb a)" "valof (fmul w_xgb a) = round_real (?wx * valof a)"
    using fmul_finite [of w_xgb a] assms(1) R(1) by simp_all
  have p2: "is_finite (fmul w_lgb b)" "valof (fmul w_lgb b) = round_real (?wl * valof b)"
    using fmul_finite [of w_lgb b] assms(2) R(2) by simp_all
  have s: "is_finite (fadd (fmul w_xgb a) (fmul w_lgb b))"
    "valof (fadd (fmul w_xgb a) (fmul w_lgb b)) =
       round_real (round_real (?wx * valof a) + round_real (?wl * valof b))"
    using fadd_finite [OF p1(1) p2(1)] R(3) by (simp_all add: p1(2) p2(2))
  show "is_finite (fadd (fmul w_xgb a) (fmul w_lgb b))" by (rule s(1))
  show "\<bar>valof (fadd (fmul w_xgb a) (fmul w_lgb b)) - (7/10 * valof a + 3/10 * valof b)\<bar>
           \<le> max \<bar>valof a\<bar> \<bar>valof b\<bar> / 2 ^ 51 + 2 powi (- 1073)"
    unfolding s(2) by (rule R(4))
  assume "0 \<le> valof a" "0 \<le> valof b"
  then have "0 \<le> round_real (?wx * valof a)" "0 \<le> round_real (?wl * valof b)"
    by (simp_all add: round_real_nonneg)
  then show "0 \<le> valof (fadd (fmul w_xgb a) (fmul w_lgb b))"
    unfolding s(2) by (intro round_real_nonneg) simp
qed

text \<open>The blend of two equal predictions, evaluated at \<open>3.0\<close> and at \<open>6.0\<close>.\<close>

lemma fmul_w_xgb_3: "fmul w_xgb (Fin 3) = Fin (1182194902184755 / 562949953421312)"
  unfolding w_xgb_value fmul_def
  by (simp, subst round_f64_eval [where k = 1]) (simp_all add: rne_def Let_def)

lemma fmul_w_lgb_3: "fmul w_lgb (Fin 3) = Fin (2026619832316723 / 2251799813685248)"
  unfolding w_lgb_value fmul_def
  by (simp, subst round_f64_eval [where k = "-1"]) (simp_all add: rne_def Let_def)

lemma blend_3_3:
  "fadd (fmul w_xgb (Fin 3)) (fmul w_lgb (Fin 3)) = Fin (6755399441055743 / 2251799813685248)"
  unfolding fmul_w_xgb_3 fmul_w_lgb_3 fadd_def
  by (simp, subst round_f64_eval [where k = 1]) (simp_all add: rne_def Let_def)

lemma fmul_w_xgb_6: "fmul w_xgb (Fin 6) = Fin (1182194902184755 / 281474976710656)"
  unfolding w_xgb_value fmul_def
  by (simp, subst round_f64_eval [where k = 2]) (simp_all add: rne_def Let_def)

lemma fmul_w_lgb_6: "fmul w_lgb (Fin 6) = Fin (2026619832316723 / 1125899906842624)"
  unfolding w_lgb_value fmul_def
  by (simp, subst round_f64_eval [where k = 0]) (simp_all add: rne_def Let_def)

lemma blend_6_6:
  "fadd (fmul w_xgb (Fin 6)) (fmul w_lgb (Fin 6)) = Fin (6755399441055743 / 1125899906842624)"
  unfolding fmul_w_xgb_6 fmul_w_lgb_6 fadd_def
  by (simp, subst round_f64_eval [where k = 2]) (simp_all add: rne_def Let_def)

lemma blend_0_0: "fadd (fmul w_xgb (Fin 0)) (fmul w_lgb (Fin 0)) = Fin 0"
  by (simp add: fmul_def fadd_def w_xgb_value w_lgb_value zero_of_sign_def)

lemma is_f64_small_nat [simp]: "is_f64 0" "is_f64 3" "is_f64 6"
  unfolding is_f64_def
  by (simp, subst round_f64_eval [where k = 1], simp_all add: rne_def Let_def,
      subst round_f64_eval [where k = 2], simp_all add: rne_def Let_def)

subsection \<open>A successful blend\<close>

lemma wf_frame_col_length:
  assumes "wf_frame df" "get_col df name = Inr c"
  shows "length c = nrows df"
proof -
  from assms(2) have "map_of df name = Some c"
    by (simp add: get_col_def split: option.splits)
  then have "(name, c) \<in> set df" by (rule map_of_SomeD)
  with assms(1) show ?thesis by (auto simp: wf_frame_def list_all_iff)
qed

lemma blend_frames_success:
  assumes wf: "wf_frame xgb_df" "wf_frame lgb_df"
    and ok: "blend_frames xgb_df lgb_df = Inr out"
  shows "\<exists>xid lid xc lc preds.
           get_col xgb_df ''id'' = Inr xid \<and> get_col lgb_df ''id'' = Inr lid \<and>
           get_col xgb_df ''Calories'' = Inr xc \<and> get_col lgb_df ''Calories'' = Inr lc \<and>
           nrows lgb_df = nrows xgb_df \<and>
           (\<forall>i < nrows xgb_df. cell_eq (xid ! i) (lid ! i)) \<and>
           blended_preds xgb_df lgb_df = Inr preds \<and> length preds = nrows xgb_df \<and>
           out = [(''id'', xid), (''Calories'', map F preds)]"
proof -
  from ok obtain xid lid same where xid: "get_col xgb_df ''id'' = Inr xid"
    and lid: "get_col lgb_df ''id'' = Inr lid" and same: "series_eq xid lid = Inr same"
    and rest: "(if \<not> list_all (\<lambda>b. b) same
     then Inl (AssertionError ''IDs do not match between the two submission files.'')
     else
       bind_err (blended_preds xgb_df lgb_df) (\<lambda>preds.
       Inr (submission_frame xid (map F preds)))) = Inr out"
    unfolding blend_frames_def bind_err_eq_Inr by blast
  from rest have all: "list_all (\<lambda>b. b) same" by (auto split: if_splits)
  with rest obtain preds where preds: "blended_preds xgb_df lgb_df = Inr preds"
    and out: "out = submission_frame xid (map F preds)"
    by (auto simp: bind_err_eq_Inr)
  from blended_preds_columns [OF preds] obtain xc lc where
    xc: "get_col xgb_df ''Calories'' = Inr xc" and lc: "get_col lgb_df ''Calories'' = Inr lc"
    by blast
  from same have len: "length xid = length lid"
    and same_def: "same = map (\<lambda>(x, y). cell_eq x y) (zip xid lid)"
    by (simp_all add: series_eq_eq_Inr)
  have n: "length xid = nrows xgb_df" "length lid = nrows lgb_df"
    "length xc = nrows xgb_df" "length lc = nrows lgb_df"
    using wf xid lid xc lc by (simp_all add: wf_frame_col_length)
  have eq: "\<forall>i < nrows xgb_df. cell_eq (xid ! i) (lid ! i)"
    using all all_same_iff [OF len] n by (simp add: same_def)
  have lp: "length preds = nrows xgb_df"
    using blended_preds_rows(1) [OF preds xc lc] n len by simp
  have "out = [(''id'', xid), (''Calories'', map F preds)]"
    using lp n by (simp add: out submission_frame_def pad_col_same [of xid, unfolded n(1)]
        pad_col_same [of "map F preds", simplified, unfolded lp])
  with xid lid xc lc n len eq preds lp show ?thesis by simp
qed

lemma blend_notebook_success:
  "blend_notebook files = (files', None) \<longleftrightarrow>
     (\<exists>xgb_df lgb_df out. files xgb_file = Some xgb_df \<and> files lgb_file = Some lgb_df \<and>
        blend_frames xgb_df lgb_df = Inr out \<and> files' = files(output_path \<mapsto> out))"
  by (auto simp: blend_notebook_cases to_csv_def split: option.splits sum.splits)

lemma example_wf [simp]:
  "wf_frame example_xgb_df" "wf_frame example_lgb_df"
  by (simp_all add: wf_frame_def columns_def nrows_def example_xgb_df_def example_lgb_df_def)

lemma example_nrows [simp]: "nrows example_xgb_df = 2"
  by (simp add: nrows_def example_xgb_df_def)


lemma example_calories [simp]:
  "get_col example_xgb_df ''Calories'' = Inr [F (Fin 3), F (Fin 0)]"
  "get_col example_lgb_df ''Calories'' = Inr [F (Fin 3), F (Fin 0)]"
  by (simp_all add: get_col_def example_xgb_df_def example_lgb_df_def)

subsection \<open>The blended rows\<close>

lemma example_blended_preds:
  "blended_preds example_xgb_df example_lgb_df =
     Inr [Fin (6755399441055743 / 2251799813685248), Fin 0]"
proof -
  have "series_add [fmul w_xgb (Fin 3), fmul w_xgb (Fin 0)] [fmul w_lgb (Fin 3), fmul w_lgb (Fin 0)]
        = [fadd (fmul w_xgb (Fin 3)) (fmul w_lgb (Fin 3)), fadd (fmul w_xgb (Fin 0)) (fmul w_lgb (Fin 0))]"
    by (simp add: series_add_def upt_rec [of 0] upt_rec [of 1])
  also have "\<dots> = [Fin (6755399441055743 / 2251799813685248), Fin 0]"
    by (simp only: blend_3_3 blend_0_0)
  finally show ?thesis by (simp add: blended_preds_def scalar_mul_def)
qed

lemma example_blend_notebook:
  "blend_notebook (blend_files example_xgb_df example_lgb_df) =
     ((blend_files example_xgb_df example_lgb_df)
        (output_path \<mapsto> [(''id'', [I 750000, I 750001]),
           (''Calories'', [F (Fin (6755399441055743 / 2251799813685248)), F (Fin 0)])]), None)"
proof -
  have "blend_frames example_xgb_df example_lgb_df =
        Inr [(''id'', [I 750000, I 750001]),
           (''Calories'', [F (Fin (6755399441055743 / 2251799813685248)), F (Fin 0)])]"
    unfolding blend_frames_def
    by (simp add: series_eq_def example_blended_preds submission_frame_def pad_col_def
        upt_rec [of 0] upt_rec [of 1])
  then show ?thesis by (simp add: blend_notebook_cases to_csv_def)
qed

lemma weights_exact:
  "\<bar>3152519739159347 / 4503599627370496 - 7/10\<bar> \<le> (1::real) / 2 ^ 54"
  "\<bar>5404319552844595 / 18014398509481984 - 3/10\<bar> \<le> (1::real) / 2 ^ 54"
  "(3152519739159347 / 4503599627370496 :: real) + 5404319552844595 / 18014398509481984 = 1 - 1 / 2 ^ 54"
  by simp_all




subsection \<open>The blend against the smaller and the larger prediction\<close>

lemma convex_between:
  fixes a b :: real
  shows "min a b \<le> 7/10 * a + 3/10 * b" and "7/10 * a + 3/10 * b \<le> max a b"
  by (simp_all add: min_def max_def)

text \<open>
  Claim C10 (as amended). For finite predictions \<open>a\<close> and \<open>b\<close> in a row, the exact value
  \<open>7/10 a + 3/10 b\<close> lies between \<open>min a b\<close> and \<open>max a b\<close>, and the blended prediction, which
  float64 computes with three roundings from the rounded weights, is finite and within
  \<open>max \<bar>a\<bar> \<bar>b\<bar> / 2^51 + 2^-1073\<close> of it; so it lies between the two predictions up to that
  rounding error. (The term \<open>2^-1073\<close> is there for subnormal predictions.) If both
  predictions are nonnegative, so is the blended prediction.
\<close>

theorem blended_row_within_rounding_of_min_and_max:
  assumes "blended_preds xgb_df lgb_df = Inr preds"
    and "get_col xgb_df ''Calories'' = Inr xc" and "get_col lgb_df ''Calories'' = Inr lc"
    and "i < length xc" and "i < length lc"
    and "to_f64 (xc ! i) = Inr a" and "to_f64 (lc ! i) = Inr b"
    and "is_finite a" and "is_finite b" and "is_f64 (valof a)" and "is_f64 (valof b)"
  shows "is_finite (preds ! i) \<and>
         \<bar>valof (preds ! i) - (7/10 * valof a + 3/10 * valof b)\<bar>
           \<le> max \<bar>valof a\<bar> \<bar>valof b\<bar> / 2 ^ 51 + 2 powi (- 1073) \<and>
         min (valof a) (valof b) \<le> 7/10 * valof a + 3/10 * valof b \<and>
         7/10 * valof a + 3/10 * valof b \<le> max (valof a) (valof b) \<and>
         min (valof a) (valof b) - (max \<bar>valof a\<bar> \<bar>valof b\<bar> / 2 ^ 51 + 2 powi (- 1073))
           \<le> valof (preds ! i) \<and>
         valof (preds ! i)
           \<le> max (valof a) (valof b) + (max \<bar>valof a\<bar> \<bar>valof b\<bar> / 2 ^ 51 + 2 powi (- 1073)) \<and>
         (0 \<le> valof a \<and> 0 \<le> valof b \<longrightarrow> 0 \<le> valof (preds ! i))"
proof -
  from blended_preds_rows(2) [OF assms(1-5)] assms(6,7)
  have p: "preds ! i = fadd (fmul w_xgb a) (fmul w_lgb b)" by simp
  note V = blend_value [OF assms(8-11)]
  have fin: "is_finite (preds ! i)" unfolding p by (rule V(1))
  have err: "\<bar>valof (preds ! i) - (7/10 * valof a + 3/10 * valof b)\<bar>
           \<le> max \<bar>valof a\<bar> \<bar>valof b\<bar> / 2 ^ 51 + 2 powi (- 1073)"
    unfolding p by (rule V(2))
  have nonneg: "0 \<le> valof (preds ! i)" if "0 \<le> valof a" "0 \<le> valof b"
    unfolding p using that by (rule V(3))
  from err convex_between [of "valof a" "valof b"]
  have "min (valof a) (valof b) - (max \<bar>valof a\<bar> \<bar>valof b\<bar> / 2 ^ 51 + 2 powi (- 1073))
           \<le> valof (preds ! i)"
    "valof (preds ! i)
           \<le> max (valof a) (valof b) + (max \<bar>valof a\<bar> \<bar>valof b\<bar> / 2 ^ 51 + 2 powi (- 1073))"
    by linarith+
  with fin err nonneg convex_between [of "valof a" "valof b"] show ?thesis by blast
qed

text \<open>At the first row of the example files, where both predictions are 3.\<close>

theorem blended_row_witness:
  "is_finite ([Fin (6755399441055743 / 2251799813685248), Fin 0] ! 0) \<and>
   \<bar>valof ([Fin (6755399441055743 / 2251799813685248), Fin 0] ! 0) - (7/10 * 3 + 3/10 * 3)\<bar>
      \<le> max \<bar>3\<bar> \<bar>3\<bar> / 2 ^ 51 + 2 powi (- 1073) \<and>
   0 \<le> valof ([Fin (6755399441055743 / 2251799813685248), Fin 0] ! 0)"
  using blended_row_within_rounding_of_min_and_max
    [OF example_blended_preds example_calories, of 0 "Fin 3" "Fin 3"]
  by simp

text \<open>
  The claim as first stated (the blended prediction lies between the smaller and the larger
  prediction) fails when both predictions are \<open>3.0\<close>: \<open>0.7 * 3.0\<close> is
  \<open>2.0999999999999996\<close>, \<open>0.3 * 3.0\<close> is \<open>0.8999999999999999\<close>, and their float64 sum is
  \<open>2.9999999999999996\<close>, below both predictions.
\<close>

theorem blended_row_counterexample:
  "blended_preds [(''Calories'', [F (Fin 3)])] [(''Calories'', [F (Fin 3)])] =
     Inr [Fin (6755399441055743 / 2251799813685248)]
   \<and> \<not> min 3 3 \<le> (6755399441055743 / 2251799813685248 :: real)"
proof -
  have "series_add [fmul w_xgb (Fin 3)] [fmul w_lgb (Fin 3)]
        = [fadd (fmul w_xgb (Fin 3)) (fmul w_lgb (Fin 3))]"
    by (simp add: series_add_def)
  then have "blended_preds [(''Calories'', [F (Fin 3)])] [(''Calories'', [F (Fin 3)])] =
      Inr [Fin (6755399441055743 / 2251799813685248)]"
    by (simp add: blended_preds_def scalar_mul_def blend_3_3 get_col_def)
  then show ?thesis by simp
qed

section \<open>Preprocessing: columns, the indicator column and the target\<close>

lemma sort_remdups_two:
  assumes "set vals = {a, b}" "a < b"
  shows "sort (remdups vals) = [a, b]"
proof -
  have "sort (remdups vals) = sorted_list_of_set (set vals)"
    by (simp add: sorted_list_of_set_sort_remdups)
  also have "\<dots> = [a, b]" using assms by (auto simp: insort_key.simps)
  finally show ?thesis .
qed

lemma columns_filter: "columns (filter (\<lambda>c. fst c \<noteq> n) df) = filter (\<lambda>m. m \<noteq> n) (columns df)"
  by (induction df) (auto simp: columns_def)

lemma get_col_filter:
  "name \<noteq> n \<Longrightarrow> get_col (filter (\<lambda>c. fst c \<noteq> n) df) name = get_col df name"
  by (induction df) (auto simp: get_col_def)

lemma get_col_append_left:
  "name \<in> set (columns df) \<Longrightarrow> get_col (df @ extra) name = get_col df name"
  by (induction df) (auto simp: get_col_def columns_def)

lemma get_col_append_right:
  "name \<notin> set (columns df) \<Longrightarrow> get_col (df @ extra) name = get_col extra name"
  by (induction df) (auto simp: get_col_def columns_def)

lemma get_col_Inr_columns: "get_col df name = Inr c \<Longrightarrow> name \<in> set (columns df)"
  by (auto simp: get_col_def columns_def split: option.splits dest: map_of_SomeD intro: rev_image_eqI)

lemma map_of_replace:
  "map_of (map (\<lambda>old. if fst old = n then (n, c) else old) df) name =
     (if name = n then (if n \<in> fst ` set df then Some c else None) else map_of df name)"
  by (induction df) (auto simp: rev_image_eqI)

lemma columns_replace: "map fst (map (\<lambda>old. if fst old = n then (n, c) else old) df) = map fst df"
  by (induction df) auto

lemma columns_set_col:
  "columns (set_col df n c) = (if n \<in> set (columns df) then columns df else columns df @ [n])"
  by (simp add: set_col_def columns_def columns_replace del: map_map)

lemma get_col_set_col_same: "get_col (set_col df n c) n = Inr c"
  by (auto simp: set_col_def get_col_def columns_def map_of_replace map_add_def
      split: option.splits dest: map_of_SomeD intro: rev_image_eqI)

lemma get_col_set_col_other: "name \<noteq> n \<Longrightarrow> get_col (set_col df n c) name = get_col df name"
  by (simp add: set_col_def get_col_def columns_def map_of_replace map_add_def
      split: option.splits)

lemma str_cells_eq_Inr: "str_cells c = Inr vals \<longleftrightarrow> c = map S vals"
proof -
  have cell: "(case x of S s \<Rightarrow> Inr s | _ \<Rightarrow> Inl Unmodelled) = Inr v \<longleftrightarrow> x = S v" for x v
    by (cases x) auto
  have "str_cells c = Inr vals \<longleftrightarrow> length vals = length c \<and> (\<forall>i < length c. c ! i = S (vals ! i))"
    unfolding str_cells_def map_err_eq_Inr cell ..
  also have "\<dots> \<longleftrightarrow> c = map S vals"
    by (auto simp: list_eq_iff_nth_eq)
  finally show ?thesis .
qed

lemma get_dummies_eq_Inr:
  "get_dummies df name = Inr out \<longleftrightarrow>
     (\<exists>vals. get_col df name = Inr (map S vals) \<and>
        out = filter (\<lambda>c. fst c \<noteq> name) df @ dummy_columns name vals)"
  unfolding get_dummies_def by (auto simp: bind_err_eq_Inr str_cells_eq_Inr)

lemma dummy_columns_names:
  "n \<in> set (columns (dummy_columns name vals)) \<Longrightarrow> \<exists>level. n = name @ ''_'' @ level"
  by (auto simp: dummy_columns_def columns_def)

lemma dummy_columns_Sex_two:
  assumes "set vals = {''female'', ''male''}"
  shows "dummy_columns ''Sex'' vals = [(''Sex_male'', map (\<lambda>v. B (v = ''male'')) vals)]"
proof -
  have "sort (remdups vals) = [''female'', ''male'']"
    using assms by (rule sort_remdups_two) simp
  then show ?thesis by (simp add: dummy_columns_def)
qed

lemma series_apply_eq_Inr:
  "series_apply f c = Inr out \<longleftrightarrow>
     length out = length c \<and> (\<forall>i < length c. \<exists>v. to_f64 (c ! i) = Inr v \<and> out ! i = F (f v))"
  unfolding series_apply_def map_err_eq_Inr by (auto simp: bind_err_eq_Inr)

text \<open>What a successful preprocessing has done, step by step.\<close>

lemma preprocess_frames_Inr:
  assumes "preprocess_frames np_log1p train test = Inr (train', test', test_ids)"
  obtains tv sv cal logcal where
    "get_col test ''id'' = Inr test_ids"
    "''id'' \<in> set (columns train)"
    "get_col (filter (\<lambda>c. fst c \<noteq> ''id'') train) ''Sex'' = Inr (map S tv)"
    "get_col (filter (\<lambda>c. fst c \<noteq> ''id'') test) ''Sex'' = Inr (map S sv)"
    "get_col (filter (\<lambda>c. fst c \<noteq> ''Sex'') (filter (\<lambda>c. fst c \<noteq> ''id'') train)
                 @ dummy_columns ''Sex'' tv) ''Calories'' = Inr cal"
    "series_apply np_log1p cal = Inr logcal"
    "train' = set_col (filter (\<lambda>c. fst c \<noteq> ''Sex'') (filter (\<lambda>c. fst c \<noteq> ''id'') train)
                 @ dummy_columns ''Sex'' tv) ''Calories'' logcal"
    "test' = filter (\<lambda>c. fst c \<noteq> ''Sex'') (filter (\<lambda>c. fst c \<noteq> ''id'') test)
                 @ dummy_columns ''Sex'' sv"
proof -
  from assms obtain train1 test1 train2 test2 cal logcal where
    ids: "get_col test ''id'' = Inr test_ids"
    and d1: "drop_col train ''id'' = Inr train1" and d2: "drop_col test ''id'' = Inr test1"
    and g1: "get_dummies train1 ''Sex'' = Inr train2" and g2: "get_dummies test1 ''Sex'' = Inr test2"
    and cal: "get_col train2 ''Calories'' = Inr cal"
    and logcal: "series_apply np_log1p cal = Inr logcal"
    and out: "train' = set_col train2 ''Calories'' logcal" "test' = test2"
    unfolding preprocess_frames_def bind_err_eq_Inr by auto
  from d1 have t1: "''id'' \<in> set (columns train)" "train1 = filter (\<lambda>c. fst c \<noteq> ''id'') train"
    by (auto simp: drop_col_def split: if_splits)
  from d2 have s1: "test1 = filter (\<lambda>c. fst c \<noteq> ''id'') test"
    by (auto simp: drop_col_def split: if_splits)
  from g1 obtain tv where tv: "get_col train1 ''Sex'' = Inr (map S tv)"
    "train2 = filter (\<lambda>c. fst c \<noteq> ''Sex'') train1 @ dummy_columns ''Sex'' tv"
    unfolding get_dummies_eq_Inr by blast
  from g2 obtain sv where sv: "get_col test1 ''Sex'' = Inr (map S sv)"
    "test2 = filter (\<lambda>c. fst c \<noteq> ''Sex'') test1 @ dummy_columns ''Sex'' sv"
    unfolding get_dummies_eq_Inr by blast
  show thesis
    using that [of tv sv cal logcal] ids t1 s1 tv sv cal logcal out by simp
qed

lemma preprocessing_notebook_success:
  assumes "preprocessing_notebook np_log1p files = (files', None)"
  obtains train test train' test' test_ids where
    "files ''datasets/train.csv'' = Some train" "files ''datasets/test.csv'' = Some test"
    "preprocess_frames np_log1p train test = Inr (train', test', test_ids)"
    "files' = files(''datasets/train_preprocessed.csv'' \<mapsto> train',
                    ''datasets/test_preprocessed.csv'' \<mapsto> test',
                    ''datasets/test_ids.csv'' \<mapsto> [(''id'', test_ids)])"
  using assms unfolding preprocessing_notebook_def read_csv_def to_csv_def
  by (auto split: option.splits sum.splits prod.splits simp: bind_err_eq_Inr)

lemma preprocessed_paths [simp]:
  "(files(''datasets/train_preprocessed.csv'' \<mapsto> a, ''datasets/test_preprocessed.csv'' \<mapsto> b,
          ''datasets/test_ids.csv'' \<mapsto> c)) ''datasets/train_preprocessed.csv'' = Some a"
  "(files(''datasets/train_preprocessed.csv'' \<mapsto> a, ''datasets/test_preprocessed.csv'' \<mapsto> b,
          ''datasets/test_ids.csv'' \<mapsto> c)) ''datasets/test_preprocessed.csv'' = Some b"
  "(files(''datasets/train_preprocessed.csv'' \<mapsto> a, ''datasets/test_preprocessed.csv'' \<mapsto> b,
          ''datasets/test_ids.csv'' \<mapsto> c)) ''datasets/test_ids.csv'' = Some c"
  by simp_all

lemma set_col_append_dummy:
  assumes "n \<in> set (columns rest)" "fst d \<noteq> n"
  shows "set_col (rest @ [d]) n c = map (\<lambda>old. if fst old = n then (n, c) else old) rest @ [d]"
  using assms by (simp add: set_col_def columns_def)

lemma get_col_singleton_other: "n \<noteq> m \<Longrightarrow> get_col [(m, c)] n = Inl (KeyError n)"
  by (simp add: get_col_def)

lemma columns_filter2:
  "columns (filter (\<lambda>c. fst c \<noteq> ''Sex'') (filter (\<lambda>c. fst c \<noteq> ''id'') df)) =
     filter (\<lambda>n. n \<noteq> ''id'' \<and> n \<noteq> ''Sex'') (columns df)"
  by (induction df) (auto simp: columns_def)

lemma map_S_eq: "map S xs = map S ys \<longleftrightarrow> xs = ys"
  by (rule inj_map_eq_map) (simp add: inj_on_def)

lemma get_col_filter2:
  "name \<noteq> a \<Longrightarrow> name \<noteq> b \<Longrightarrow>
   get_col (filter (\<lambda>c. fst c \<noteq> a \<and> fst c \<noteq> b) df) name = get_col df name"
  by (induction df) (auto simp: get_col_def)

lemma columns_filter2':
  "columns (filter (\<lambda>c. fst c \<noteq> a \<and> fst c \<noteq> b) df) = filter (\<lambda>n. n \<noteq> a \<and> n \<noteq> b) (columns df)"
  by (induction df) (auto simp: columns_def)


lemma example_raw_files_simps [simp]:
  "example_raw_files ''datasets/train.csv'' = Some example_train"
  "example_raw_files ''datasets/test.csv'' = Some example_test"
  by (simp_all add: example_raw_files_def)

lemma example_sex [simp]:
  "get_col example_train ''Sex'' = Inr (map S [''male'', ''female'', ''female'', ''male'', ''female''])"
  "get_col example_test ''Sex'' = Inr (map S [''female'', ''male''])"
  by (simp_all add: get_col_def example_train_def example_test_def)

lemma example_dummies:
  "dummy_columns ''Sex'' [''male'', ''female'', ''female'', ''male'', ''female''] =
     [(''Sex_male'', [B True, B False, B False, B True, B False])]"
  "dummy_columns ''Sex'' [''female'', ''male''] = [(''Sex_male'', [B False, B True])]"
  by (subst dummy_columns_Sex_two; auto)+

lemma example_drop:
  "drop_col example_train ''id'' = Inr (tl example_train)"
  "drop_col example_test ''id'' = Inr (tl example_test)"
  by (simp_all add: drop_col_def columns_def example_train_def example_test_def)

lemma example_get_dummies_train:
  "get_dummies (tl example_train) ''Sex'' = Inr (tl (tl example_train) @ [(''Sex_male'', [B True, B False, B False, B True, B False])])"
  unfolding get_dummies_eq_Inr
  by (rule exI [of _ "[''male'', ''female'', ''female'', ''male'', ''female'']"]) (simp add: example_dummies, simp add: example_train_def get_col_def)

lemma example_get_dummies_test:
  "get_dummies (tl example_test) ''Sex'' = Inr (tl (tl example_test) @ [(''Sex_male'', [B False, B True])])"
  unfolding get_dummies_eq_Inr
  by (rule exI [of _ "[''female'', ''male'']"]) (simp add: example_dummies, simp add: example_test_def get_col_def)


lemma example_log_calories:
  "series_apply log1p_rounded [F (Fin 150), F (Fin 34), F (Fin 29), F (Fin 140), F (Fin 146)] =
     Inr [F (round_f64 (ln 151)), F (round_f64 (ln 35)), F (round_f64 (ln 30)),
          F (round_f64 (ln 141)), F (round_f64 (ln 147))]"
  by (simp add: series_apply_def)

lemma example_preprocess_frames:
  "preprocess_frames log1p_rounded example_train example_test =
     Inr (example_train_preprocessed, example_test_preprocessed, [I 750000, I 750001])"
proof -
  have ids: "get_col example_test ''id'' = Inr [I 750000, I 750001]"
    by (simp add: get_col_def example_test_def)
  have cal: "get_col (tl (tl example_train) @ [(''Sex_male'', [B True, B False, B False, B True, B False])])
      ''Calories'' = Inr [F (Fin 150), F (Fin 34), F (Fin 29), F (Fin 140), F (Fin 146)]"
    by (simp add: get_col_def example_train_def)
  have set: "set_col (tl (tl example_train) @ [(''Sex_male'', [B True, B False, B False, B True, B False])])
       ''Calories''
       [F (round_f64 (ln 151)), F (round_f64 (ln 35)), F (round_f64 (ln 30)),
        F (round_f64 (ln 141)), F (round_f64 (ln 147))] = example_train_preprocessed"
    by (simp add: set_col_def columns_def example_train_def example_train_preprocessed_def)
  have test: "tl (tl example_test) @ [(''Sex_male'', [B False, B True])] = example_test_preprocessed"
    by (simp add: example_test_def example_test_preprocessed_def)
  show ?thesis
    unfolding preprocess_frames_def
    by (simp only: ids example_drop example_get_dummies_train example_get_dummies_test cal
        example_log_calories set test bind_err_Inr)
qed

lemma example_preprocessing_notebook:
  "preprocessing_notebook log1p_rounded example_raw_files = (example_preprocessed_files, None)"
  by (simp add: preprocessing_notebook_def read_csv_def example_preprocess_frames to_csv_def
      example_preprocessed_files_def)



section \<open>The indicator columns of the one-hot encoding\<close>

lemma set_col_append_extra:
  assumes "n \<in> set (columns rest)" "n \<notin> set (columns extra)"
  shows "set_col (rest @ extra) n c =
           map (\<lambda>old. if fst old = n then (n, c) else old) rest @ extra"
proof -
  have "map (\<lambda>old. if fst old = n then (n, c) else old) extra = extra"
    using assms(2) by (intro map_idI) (auto simp: columns_def)
  then show ?thesis using assms(1) by (simp add: set_col_def columns_def)
qed

lemma dummy_columns_not_Calories: "''Calories'' \<notin> set (columns (dummy_columns ''Sex'' vals))"
  by (auto simp: dummy_columns_def columns_def)

lemma dummy_columns_single:
  assumes "card (set vals) \<le> 1"
  shows "dummy_columns name vals = []"
proof -
  have "length (sort (remdups vals)) \<le> 1"
    using assms by (simp add: length_remdups_card_conv)
  then have "tl (sort (remdups vals)) = []"
    by (cases "sort (remdups vals)") simp_all
  then show ?thesis by (simp add: dummy_columns_def)
qed


lemma example_males_files_simps [simp]:
  "example_males_files ''datasets/train.csv'' = Some example_train_males"
  "example_males_files ''datasets/test.csv'' = Some example_test"
  by (simp_all add: example_males_files_def)

lemma example_males_sex [simp]:
  "get_col example_train_males ''Sex'' = Inr (map S [''male'', ''male''])"
  by (simp add: get_col_def example_train_males_def)

lemma example_males_preprocess_frames:
  "preprocess_frames log1p_rounded example_train_males example_test =
     Inr (example_train_males_preprocessed, example_test_preprocessed, [I 750000, I 750001])"
proof -
  have ids: "get_col example_test ''id'' = Inr [I 750000, I 750001]"
    by (simp add: get_col_def example_test_def)
  have drop: "drop_col example_train_males ''id'' = Inr (tl example_train_males)"
    by (simp add: drop_col_def columns_def example_train_males_def)
  have "dummy_columns ''Sex'' [''male'', ''male''] = []"
    by (rule dummy_columns_single) simp
  then have dum: "get_dummies (tl example_train_males) ''Sex'' = Inr (tl (tl example_train_males))"
    unfolding get_dummies_eq_Inr
    by (intro exI [of _ "[''male'', ''male'']"]) (simp add: example_train_males_def get_col_def)
  have cal: "get_col (tl (tl example_train_males)) ''Calories'' = Inr [F (Fin 150), F (Fin 140)]"
    by (simp add: get_col_def example_train_males_def)
  have log: "series_apply log1p_rounded [F (Fin 150), F (Fin 140)] =
     Inr [F (round_f64 (ln 151)), F (round_f64 (ln 141))]"
    by (simp add: series_apply_def)
  have set: "set_col (tl (tl example_train_males)) ''Calories''
       [F (round_f64 (ln 151)), F (round_f64 (ln 141))] = example_train_males_preprocessed"
    by (simp add: set_col_def columns_def example_train_males_def example_train_males_preprocessed_def)
  have test: "tl (tl example_test) @ [(''Sex_male'', [B False, B True])] = example_test_preprocessed"
    by (simp add: example_test_def example_test_preprocessed_def)
  show ?thesis
    unfolding preprocess_frames_def
    by (simp only: ids example_drop drop dum example_get_dummies_test cal log set test bind_err_Inr)
qed

lemma example_males_preprocessing_notebook:
  "preprocessing_notebook log1p_rounded example_males_files = (example_males_preprocessed_files, None)"
  by (simp add: preprocessing_notebook_def read_csv_def example_males_preprocess_frames to_csv_def
      example_males_preprocessed_files_def)

lemma example_sex_sets:
  "set [''male'', ''female'', ''female'', ''male'', ''female''] = {''female'', ''male''}"
  "set [''female'', ''male''] = {''female'', ''male''}"
  by auto



end
